theory Spec2Isabelle
  imports Complex_Main "HOL-Library.Word"
begin

section \<open>Numbers of the host language\<close>

text \<open>
  Sample values and gains are IEEE numbers in the source. They are modelled by their exact
  real value, together with the three special values that the operations used by the mixer
  can meet or produce. Rounding and the sign of zero are not modelled; every operation
  below is the exact one on finite values and follows the IEEE rules on the special ones.
  Times (start times, durations, the cursor) are finite throughout and are plain reals.
\<close>

datatype jsnum = Num real | PInf | NInf | NaN

fun Math_abs :: "jsnum \<Rightarrow> jsnum" where
  "Math_abs (Num r) = Num \<bar>r\<bar>"
| "Math_abs PInf = PInf"
| "Math_abs NInf = PInf"
| "Math_abs NaN = NaN"

text \<open>\<open>js_lt a b\<close> is the source's \<open>a < b\<close>; a comparison with NaN is false.\<close>

fun js_lt :: "jsnum \<Rightarrow> jsnum \<Rightarrow> bool" where
  "js_lt NaN b = False"
| "js_lt a NaN = False"
| "js_lt (Num a) (Num b) = (a < b)"
| "js_lt (Num a) PInf = True"
| "js_lt (Num a) NInf = False"
| "js_lt PInf b = False"
| "js_lt NInf NInf = False"
| "js_lt NInf b = True"

definition js_gt :: "jsnum \<Rightarrow> jsnum \<Rightarrow> bool" where
  "js_gt a b = js_lt b a"

fun Math_min :: "jsnum \<Rightarrow> jsnum \<Rightarrow> jsnum" where
  "Math_min NaN b = NaN"
| "Math_min a NaN = NaN"
| "Math_min a b = (if js_lt b a then b else a)"

fun Math_max :: "jsnum \<Rightarrow> jsnum \<Rightarrow> jsnum" where
  "Math_max NaN b = NaN"
| "Math_max a NaN = NaN"
| "Math_max a b = (if js_lt a b then b else a)"

fun js_mul :: "jsnum \<Rightarrow> jsnum \<Rightarrow> jsnum" where
  "js_mul NaN b = NaN"
| "js_mul a NaN = NaN"
| "js_mul (Num a) (Num b) = Num (a * b)"
| "js_mul (Num a) PInf = (if a = 0 then NaN else if 0 < a then PInf else NInf)"
| "js_mul (Num a) NInf = (if a = 0 then NaN else if 0 < a then NInf else PInf)"
| "js_mul PInf (Num b) = (if b = 0 then NaN else if 0 < b then PInf else NInf)"
| "js_mul NInf (Num b) = (if b = 0 then NaN else if 0 < b then NInf else PInf)"
| "js_mul PInf PInf = PInf"
| "js_mul PInf NInf = NInf"
| "js_mul NInf PInf = NInf"
| "js_mul NInf NInf = PInf"

text \<open>
  Division: a finite non-zero value over zero is infinite (the zero is taken as positive),
  zero over zero and infinite over infinite are NaN, a finite value over an infinite one is 0.
\<close>

fun js_div :: "jsnum \<Rightarrow> jsnum \<Rightarrow> jsnum" where
  "js_div NaN b = NaN"
| "js_div a NaN = NaN"
| "js_div (Num a) (Num b) =
     (if b = 0 then (if a = 0 then NaN else if 0 < a then PInf else NInf) else Num (a / b))"
| "js_div (Num a) PInf = Num 0"
| "js_div (Num a) NInf = Num 0"
| "js_div PInf (Num b) = (if 0 \<le> b then PInf else NInf)"
| "js_div NInf (Num b) = (if 0 \<le> b then NInf else PInf)"
| "js_div PInf b = NaN"
| "js_div NInf b = NaN"

text \<open>Conversion of a number to an integer: towards zero.\<close>

definition js_trunc :: "real \<Rightarrow> int" where
  "js_trunc x = (if x < 0 then \<lceil>x\<rceil> else \<lfloor>x\<rfloor>)"

text \<open>What \<open>setUint32\<close>, \<open>setUint16\<close> and \<open>setInt16\<close> store for a number: the truncated
  value modulo the width. The header fields are finite; a sample that is NaN or infinite
  stores 0.\<close>

definition toUint32 :: "real \<Rightarrow> 32 word" where
  "toUint32 x = word_of_int (js_trunc x)"

definition toUint16 :: "real \<Rightarrow> 16 word" where
  "toUint16 x = word_of_int (js_trunc x)"

fun toInt16 :: "jsnum \<Rightarrow> 16 word" where
  "toInt16 (Num r) = word_of_int (js_trunc r)"
| "toInt16 PInf = 0"
| "toInt16 NInf = 0"
| "toInt16 NaN = 0"

section \<open>Decoded audio\<close>

text \<open>
  An \<open>AudioBuffer\<close> of the platform: its sample rate, its length in sample frames and one
  list of samples per channel. The channel count is the number of channel lists; the
  platform keeps every channel at \<open>lengthFrames\<close> samples (\<open>wfAudioBuffer\<close>).
\<close>

record AudioBuffer =
  sampleRate :: real
  lengthFrames :: nat
  channelData :: "jsnum list list"

definition numberOfChannels :: "AudioBuffer \<Rightarrow> nat" where
  "numberOfChannels buf = length (channelData buf)"

definition duration :: "AudioBuffer \<Rightarrow> real" where
  "duration buf = real (lengthFrames buf) / sampleRate buf"

definition wfAudioBuffer :: "AudioBuffer \<Rightarrow> bool" where
  "wfAudioBuffer buf \<longleftrightarrow>
     0 < sampleRate buf \<and> 0 < numberOfChannels buf \<and>
     list_all (\<lambda>data. length data = lengthFrames buf) (channelData buf)"

text \<open>\<open>createBuffer(numberOfChannels, length, sampleRate)\<close>: a silent buffer.\<close>

definition createBuffer :: "nat \<Rightarrow> nat \<Rightarrow> real \<Rightarrow> AudioBuffer" where
  "createBuffer numCh len sr =
     \<lparr>sampleRate = sr, lengthFrames = len, channelData = replicate numCh (replicate len (Num 0))\<rparr>"

text \<open>\<open>buf.getChannelData(ch)[f]\<close>; an index past the end of the data reads \<open>undefined\<close>,
  which is NaN in arithmetic.\<close>

definition sampleAt :: "AudioBuffer \<Rightarrow> nat \<Rightarrow> nat \<Rightarrow> jsnum" where
  "sampleAt buf ch f =
     (if ch < length (channelData buf) \<and> f < length (channelData buf ! ch)
      then channelData buf ! ch ! f else NaN)"

text \<open>
  \<open>decodeB64Audio\<close> hands the payload to the platform decoder, which is not part of the
  repository: it is a parameter, \<open>None\<close> where the decoder rejects the payload (the
  source's promise rejects and the caller's \<open>catch\<close> runs).
\<close>

type_synonym decoder = "string \<Rightarrow> AudioBuffer option"

section \<open>Cadence scheduling\<close>

datatype SegmentType = narration | dialogue

record Segment =
  segType :: SegmentType
  segText :: string
  speaker :: "string option"

record SfxItem =
  segmentIndex :: int
  prompt :: string
  startTime :: real
  audioBase64 :: string

definition GAP_NAR_TO_DLG :: real where "GAP_NAR_TO_DLG = 22 / 100"
definition GAP_DLG_TO_NAR :: real where "GAP_DLG_TO_NAR = 18 / 100"
definition GAP_DLG_TO_DLG :: real where "GAP_DLG_TO_DLG = 12 / 100"
definition GAP_BETWEEN_SCENES :: real where "GAP_BETWEEN_SCENES = 5 / 10"

text \<open>The pause added to the cursor before segment \<open>i > 0\<close> of the book reader; no branch
  of the source fires for narration after narration.\<close>

definition segmentGap :: "Segment \<Rightarrow> Segment \<Rightarrow> real" where
  "segmentGap prev cur =
     (if segType prev = narration \<and> segType cur = dialogue then GAP_NAR_TO_DLG
      else if segType prev = dialogue \<and> segType cur = narration then GAP_DLG_TO_NAR
      else if segType prev = dialogue \<and> segType cur = dialogue then GAP_DLG_TO_DLG
      else 0)"

record ScriptDialogueLine =
  sceneIndex :: int
  lineIndex :: int
  character :: string
  parenthetical :: "string option"
  lineText :: string

text \<open>The pause before line \<open>i > 0\<close> of the screenplay reader.\<close>

definition lineGap :: "ScriptDialogueLine \<Rightarrow> ScriptDialogueLine \<Rightarrow> real" where
  "lineGap prev cur =
     (if sceneIndex prev \<noteq> sceneIndex cur then GAP_BETWEEN_SCENES else GAP_DLG_TO_DLG)"

text \<open>\<open>durations[i] ?? 0\<close>: the duration of unit \<open>i\<close>, 0 where the list has no entry.\<close>

definition durationAt :: "real list \<Rightarrow> nat \<Rightarrow> real" where
  "durationAt durations i = (if i < length durations then durations ! i else 0)"

text \<open>
  The scheduling loop, which the three call sites share up to the pause they add: the state
  is the list of start times pushed so far and the cursor.
\<close>

function cadenceLoop ::
  "('a \<Rightarrow> 'a \<Rightarrow> real) \<Rightarrow> 'a list \<Rightarrow> real list \<Rightarrow> nat \<Rightarrow> real list \<times> real \<Rightarrow> real list \<times> real"
where
  "cadenceLoop gap units durations i (startTimes, cursor) =
     (if i < length units then
        (let cursor1 = (if 0 < i then cursor + gap (units ! (i - 1)) (units ! i) else cursor)
         in cadenceLoop gap units durations (i + 1)
              (startTimes @ [cursor1], cursor1 + durationAt durations i))
      else (startTimes, cursor))"
  by pat_completeness auto
termination
  by (relation "measure (\<lambda>(gap, units, durations, i, st). length units - i)") auto

declare cadenceLoop.simps [simp del]

text \<open>Book reader: start times and final cursor of the segments, the durations being those
  of the decoded speech buffers.\<close>

definition segmentStartTimes :: "Segment list \<Rightarrow> real list \<Rightarrow> real list \<times> real" where
  "segmentStartTimes segments durations = cadenceLoop segmentGap segments durations 0 ([], 0)"

text \<open>Screenplay reader (server and page): start times and final cursor of the lines.\<close>

definition lineStartTimes :: "ScriptDialogueLine list \<Rightarrow> real list \<Rightarrow> real list \<times> real" where
  "lineStartTimes dialogueLines lineDurations =
     cadenceLoop lineGap dialogueLines lineDurations 0 ([], 0)"

section \<open>The mixdown of the book reader\<close>

text \<open>Speech decoding: a payload that the decoder rejects is replaced by
  \<open>createBuffer(1, 1, 44100)\<close>, so the list of buffers has one entry per payload.\<close>

fun decodeSpeech :: "decoder \<Rightarrow> string list \<Rightarrow> AudioBuffer list" where
  "decodeSpeech decode [] = []"
| "decodeSpeech decode (b64 # rest) =
     (case decode b64 of
        Some buf \<Rightarrow> buf # decodeSpeech decode rest
      | None \<Rightarrow> createBuffer 1 1 44100 # decodeSpeech decode rest)"

text \<open>\<open>ts[idx] ?? fallback\<close> for an index that arrives as a number in the response.\<close>

definition timeAt :: "real list \<Rightarrow> int \<Rightarrow> real \<Rightarrow> real" where
  "timeAt ts idx fallback =
     (if 0 \<le> idx \<and> idx < int (length ts) then ts ! nat idx else fallback)"

record DecodedClip =
  buffer :: AudioBuffer
  clipStart :: real

text \<open>Effect decoding: a payload that the decoder rejects is skipped.\<close>

fun decodeSfx :: "decoder \<Rightarrow> real list \<Rightarrow> SfxItem list \<Rightarrow> DecodedClip list" where
  "decodeSfx decode startTimes [] = []"
| "decodeSfx decode startTimes (sfx # rest) =
     (case decode (audioBase64 sfx) of
        Some buf \<Rightarrow>
          \<lparr>buffer = buf, clipStart = timeAt startTimes (segmentIndex sfx) (startTime sfx)\<rparr>
            # decodeSfx decode startTimes rest
      | None \<Rightarrow> decodeSfx decode startTimes rest)"

text \<open>The latest end among decoded overlay clips, from 0 (the source's \<open>reduce\<close>).\<close>

definition latestEnd :: "DecodedClip list \<Rightarrow> real" where
  "latestEnd clips = foldl (\<lambda>m c. max m (clipStart c + duration (buffer c))) 0 clips"

text \<open>Peak of an effect clip: the two nested loops over channels and samples.\<close>

fun peakOfData :: "jsnum list \<Rightarrow> jsnum \<Rightarrow> jsnum" where
  "peakOfData [] peak = peak"
| "peakOfData (x # data) peak =
     peakOfData data (if js_gt (Math_abs x) peak then Math_abs x else peak)"

fun peakOfChannels :: "jsnum list list \<Rightarrow> jsnum \<Rightarrow> jsnum" where
  "peakOfChannels [] peak = peak"
| "peakOfChannels (data # chans) peak = peakOfChannels chans (peakOfData data peak)"

definition TARGET_PEAK :: real where "TARGET_PEAK = 6 / 10"

definition peakOf :: "AudioBuffer \<Rightarrow> jsnum" where
  "peakOf buf = peakOfChannels (channelData buf) (Num 0)"

definition sfxGain :: "AudioBuffer \<Rightarrow> jsnum" where
  "sfxGain buf =
     (let peak = peakOf buf
      in if js_gt peak (Num 0) then js_div (Num TARGET_PEAK) peak else Num TARGET_PEAK)"

text \<open>
  What the mixer hands to the offline renderer, which is the platform's: the arguments of
  the \<open>OfflineAudioContext\<close> constructor and the scheduled sources, each with its buffer,
  its start time and the value of its gain node (\<open>None\<close> for a source connected to the
  destination directly).
\<close>

record ScheduledSource =
  srcBuffer :: AudioBuffer
  srcStart :: real
  srcGain :: "jsnum option"

record RenderRequest =
  ctxChannels :: nat
  ctxLength :: int
  ctxSampleRate :: real
  ctxSources :: "ScheduledSource list"

text \<open>\<open>src.start(startTimes[i])\<close> for buffer \<open>i\<close>; \<open>start(undefined)\<close> starts at 0.\<close>

definition speechSources :: "AudioBuffer list \<Rightarrow> real list \<Rightarrow> ScheduledSource list" where
  "speechSources segBuffers startTimes =
     map (\<lambda>i. \<lparr>srcBuffer = segBuffers ! i, srcStart = timeAt startTimes (int i) 0, srcGain = None\<rparr>)
       [0..<length segBuffers]"

definition sfxSource :: "DecodedClip \<Rightarrow> ScheduledSource" where
  "sfxSource c = \<lparr>srcBuffer = buffer c, srcStart = clipStart c, srcGain = Some (sfxGain (buffer c))\<rparr>"

text \<open>\<open>segBuffers[0]?.sampleRate ?? 44100\<close> and \<open>segBuffers[0]?.numberOfChannels ?? 1\<close>.\<close>

definition firstSampleRate :: "AudioBuffer list \<Rightarrow> real" where
  "firstSampleRate segBuffers = (case segBuffers of [] \<Rightarrow> 44100 | b # _ \<Rightarrow> sampleRate b)"

definition firstNumChannels :: "AudioBuffer list \<Rightarrow> nat" where
  "firstNumChannels segBuffers = (case segBuffers of [] \<Rightarrow> 1 | b # _ \<Rightarrow> numberOfChannels b)"

definition mixAudio :: "decoder \<Rightarrow> string list \<Rightarrow> Segment list \<Rightarrow> SfxItem list \<Rightarrow> RenderRequest" where
  "mixAudio decode segmentsAudio segments sfxList =
     (let segBuffers = decodeSpeech decode segmentsAudio;
          (startTimes, cursor) = segmentStartTimes segments (map duration segBuffers);
          sfxDecoded = decodeSfx decode startTimes sfxList;
          sampleRate = firstSampleRate segBuffers;
          numChannels = firstNumChannels segBuffers;
          totalDuration = max cursor (latestEnd sfxDecoded)
      in \<lparr>ctxChannels = numChannels,
          ctxLength = \<lceil>totalDuration * sampleRate\<rceil>,
          ctxSampleRate = sampleRate,
          ctxSources = speechSources segBuffers startTimes @ map sfxSource sfxDecoded\<rparr>)"

section \<open>The mixdown of the screenplay reader\<close>

text \<open>Effect and music items of the screenplay reader have the same shape.\<close>

record SceneClipItem =
  clipSceneIndex :: int
  clipPrompt :: string
  clipStartTime :: real
  clipAudioBase64 :: string

fun decodeSceneClips :: "decoder \<Rightarrow> real list \<Rightarrow> SceneClipItem list \<Rightarrow> DecodedClip list" where
  "decodeSceneClips decode sceneStartTimes [] = []"
| "decodeSceneClips decode sceneStartTimes (item # rest) =
     (case decode (clipAudioBase64 item) of
        Some buf \<Rightarrow>
          \<lparr>buffer = buf,
           clipStart = timeAt sceneStartTimes (clipSceneIndex item) (clipStartTime item)\<rparr>
            # decodeSceneClips decode sceneStartTimes rest
      | None \<Rightarrow> decodeSceneClips decode sceneStartTimes rest)"

definition MUSIC_GAIN :: real where "MUSIC_GAIN = 18 / 100"

definition musicSource :: "DecodedClip \<Rightarrow> ScheduledSource" where
  "musicSource c = \<lparr>srcBuffer = buffer c, srcStart = clipStart c, srcGain = Some (Num MUSIC_GAIN)\<rparr>"

definition mixAudioScreenplay ::
  "decoder \<Rightarrow> string list \<Rightarrow> ScriptDialogueLine list \<Rightarrow> SceneClipItem list \<Rightarrow> SceneClipItem list
     \<Rightarrow> real list \<Rightarrow> RenderRequest"
where
  "mixAudioScreenplay decode linesAudio dialogueLines sfxList musicList sceneStartTimes =
     (let lineBuffers = decodeSpeech decode linesAudio;
          (startTimes, cursor) = lineStartTimes dialogueLines (map duration lineBuffers);
          sfxDecoded = decodeSceneClips decode sceneStartTimes sfxList;
          musicDecoded = decodeSceneClips decode sceneStartTimes musicList;
          sampleRate = firstSampleRate lineBuffers;
          numChannels = firstNumChannels lineBuffers;
          totalDuration = max cursor (max (latestEnd sfxDecoded) (latestEnd musicDecoded))
      in \<lparr>ctxChannels = numChannels,
          ctxLength = max 1 \<lceil>totalDuration * sampleRate\<rceil>,
          ctxSampleRate = sampleRate,
          ctxSources = speechSources lineBuffers startTimes @ map sfxSource sfxDecoded
                         @ map musicSource musicDecoded\<rparr>)"

section \<open>Scene start times on the server\<close>

text \<open>A raw time is the start of the scene's first line, or \<open>null\<close> for a scene without lines.\<close>

definition isNullAt :: "real option list \<Rightarrow> nat \<Rightarrow> bool" where
  "isNullAt rawTimes k \<longleftrightarrow> k < length rawTimes \<and> rawTimes ! k = None"

text \<open>\<open>rawTimes[k] as number\<close>, read after the scan has stopped at a non-null entry.\<close>

definition numberAt :: "real option list \<Rightarrow> nat \<Rightarrow> real" where
  "numberAt rawTimes k =
     (if k < length rawTimes then (case rawTimes ! k of Some t \<Rightarrow> t | None \<Rightarrow> 0) else 0)"

function scanPrev :: "real option list \<Rightarrow> int \<Rightarrow> int" where
  "scanPrev rawTimes prevIdx =
     (if 0 \<le> prevIdx \<and> isNullAt rawTimes (nat prevIdx) then scanPrev rawTimes (prevIdx - 1)
      else prevIdx)"
  by pat_completeness auto
termination
  by (relation "measure (\<lambda>(rawTimes, prevIdx). nat (prevIdx + 1))") auto

function scanNext :: "real option list \<Rightarrow> nat \<Rightarrow> nat" where
  "scanNext rawTimes nextIdx =
     (if nextIdx < length rawTimes \<and> isNullAt rawTimes nextIdx then scanNext rawTimes (nextIdx + 1)
      else nextIdx)"
  by pat_completeness auto
termination
  by (relation "measure (\<lambda>(rawTimes, nextIdx). length rawTimes - nextIdx)") auto

declare scanPrev.simps [simp del] scanNext.simps [simp del]

definition interpolateScene :: "real option list \<Rightarrow> real \<Rightarrow> nat \<Rightarrow> real" where
  "interpolateScene rawTimes cursor i =
     (case rawTimes ! i of
        Some t \<Rightarrow> t
      | None \<Rightarrow>
          (let prevIdx = scanPrev rawTimes (int i - 1);
               nextIdx = scanNext rawTimes (i + 1);
               prevTime = (if 0 \<le> prevIdx then numberAt rawTimes (nat prevIdx) else 0);
               nextTime = (if nextIdx < length rawTimes then numberAt rawTimes nextIdx else cursor);
               span = int nextIdx - prevIdx
           in prevTime + (real_of_int (int i - prevIdx) / real_of_int span) * (nextTime - prevTime)))"

text \<open>\<open>rawTimes.map((t, i) => ...)\<close>.\<close>

definition sceneStartTimes :: "real option list \<Rightarrow> real \<Rightarrow> real list" where
  "sceneStartTimes rawTimes cursor =
     map (interpolateScene rawTimes cursor) [0..<length rawTimes]"

section \<open>The container encoder\<close>

datatype error = RangeError

type_synonym byte = "8 word"

definition le16 :: "16 word \<Rightarrow> byte list" where
  "le16 w = [ucast w, ucast (drop_bit 8 w)]"

definition le32 :: "32 word \<Rightarrow> byte list" where
  "le32 w = [ucast w, ucast (drop_bit 8 w), ucast (drop_bit 16 w), ucast (drop_bit 24 w)]"

text \<open>
  A \<open>DataView\<close> over an \<open>ArrayBuffer\<close> is the list of its bytes. A write that does not fit
  in the buffer throws \<open>RangeError\<close>; all writes of the encoder are little-endian.
\<close>

definition setBytes :: "byte list \<Rightarrow> nat \<Rightarrow> byte list \<Rightarrow> error + byte list" where
  "setBytes v off bs =
     (if off + length bs \<le> length v then Inr (take off v @ bs @ drop (off + length bs) v)
      else Inl RangeError)"

definition setUint8 :: "byte list \<Rightarrow> nat \<Rightarrow> byte \<Rightarrow> error + byte list" where
  "setUint8 v off b = setBytes v off [b]"

definition setUint16 :: "byte list \<Rightarrow> nat \<Rightarrow> real \<Rightarrow> error + byte list" where
  "setUint16 v off x = setBytes v off (le16 (toUint16 x))"

definition setUint32 :: "byte list \<Rightarrow> nat \<Rightarrow> real \<Rightarrow> error + byte list" where
  "setUint32 v off x = setBytes v off (le32 (toUint32 x))"

definition setInt16 :: "byte list \<Rightarrow> nat \<Rightarrow> jsnum \<Rightarrow> error + byte list" where
  "setInt16 v off x = setBytes v off (le16 (toInt16 x))"

text \<open>Statements in sequence: an exception skips the rest.\<close>

definition thenE :: "error + 'a \<Rightarrow> ('a \<Rightarrow> error + 'b) \<Rightarrow> error + 'b" where
  "thenE r f = (case r of Inl e \<Rightarrow> Inl e | Inr x \<Rightarrow> f x)"

fun writeString :: "byte list \<Rightarrow> nat \<Rightarrow> string \<Rightarrow> error + byte list" where
  "writeString v off [] = Inr v"
| "writeString v off (c # str) = thenE (setUint8 v off (of_char c)) (\<lambda>v1. writeString v1 (off + 1) str)"

text \<open>The sample written for a value of the buffer: clamp, then scale by sign.\<close>

definition scaleSample :: "jsnum \<Rightarrow> jsnum" where
  "scaleSample x =
     (let s = Math_max (Num (- 1)) (Math_min (Num 1) x)
      in if js_lt s (Num 0) then js_mul s (Num 32768) else js_mul s (Num 32767))"

text \<open>The inner loop over the channels of frame \<open>f\<close> and the outer loop over the frames;
  the state is the view and the write offset.\<close>

function channelLoop :: "AudioBuffer \<Rightarrow> nat \<Rightarrow> nat \<Rightarrow> byte list \<times> nat \<Rightarrow> error + byte list \<times> nat" where
  "channelLoop buf f ch (v, off) =
     (if ch < numberOfChannels buf then
        (case setInt16 v off (scaleSample (sampleAt buf ch f)) of
           Inl e \<Rightarrow> Inl e
         | Inr v1 \<Rightarrow> channelLoop buf f (ch + 1) (v1, off + 2))
      else Inr (v, off))"
  by pat_completeness auto
termination
  by (relation "measure (\<lambda>(buf, f, ch, st). numberOfChannels buf - ch)") auto

function frameLoop :: "AudioBuffer \<Rightarrow> nat \<Rightarrow> byte list \<times> nat \<Rightarrow> error + byte list \<times> nat" where
  "frameLoop buf f (v, off) =
     (if f < lengthFrames buf then
        (case channelLoop buf f 0 (v, off) of
           Inl e \<Rightarrow> Inl e
         | Inr st \<Rightarrow> frameLoop buf (f + 1) st)
      else Inr (v, off))"
  by pat_completeness auto
termination
  by (relation "measure (\<lambda>(buf, f, st). lengthFrames buf - f)") auto

declare channelLoop.simps [simp del] frameLoop.simps [simp del]

definition audioBufferToWav :: "AudioBuffer \<Rightarrow> error + byte list" where
  "audioBufferToWav buf =
     (let numCh = numberOfChannels buf; sr = sampleRate buf; len = lengthFrames buf;
          dataSize = len * numCh * 2;
          ab = replicate (44 + dataSize) (0 :: byte)
      in thenE (writeString ab 0 ''RIFF'') (\<lambda>v.
         thenE (setUint32 v 4 (real (36 + dataSize))) (\<lambda>v.
         thenE (writeString v 8 ''WAVE'') (\<lambda>v.
         thenE (writeString v 12 ''fmt '') (\<lambda>v.
         thenE (setUint32 v 16 16) (\<lambda>v.
         thenE (setUint16 v 20 1) (\<lambda>v.
         thenE (setUint16 v 22 (real numCh)) (\<lambda>v.
         thenE (setUint32 v 24 sr) (\<lambda>v.
         thenE (setUint32 v 28 (sr * real numCh * 2)) (\<lambda>v.
         thenE (setUint16 v 32 (real (numCh * 2))) (\<lambda>v.
         thenE (setUint16 v 34 16) (\<lambda>v.
         thenE (writeString v 36 ''data'') (\<lambda>v.
         thenE (setUint32 v 40 (real dataSize)) (\<lambda>v.
         thenE (frameLoop buf 0 (v, 44)) (\<lambda>(v, off). Inr v)))))))))))))))"

text \<open>
  The layout the specification describes, for comparison with the encoder: the 44-byte
  header and the interleaved 16-bit samples, frame by frame and channel by channel.
\<close>

definition wavHeader :: "nat \<Rightarrow> real \<Rightarrow> nat \<Rightarrow> byte list" where
  "wavHeader numCh sr dataSize =
     map of_char ''RIFF'' @ le32 (toUint32 (real (36 + dataSize))) @ map of_char ''WAVE''
     @ map of_char ''fmt '' @ le32 (toUint32 16) @ le16 (toUint16 1)
     @ le16 (toUint16 (real numCh)) @ le32 (toUint32 sr)
     @ le32 (toUint32 (sr * real numCh * 2)) @ le16 (toUint16 (real (numCh * 2)))
     @ le16 (toUint16 16)
     @ map of_char ''data'' @ le32 (toUint32 (real dataSize))"

definition frameBytes :: "AudioBuffer \<Rightarrow> nat \<Rightarrow> byte list" where
  "frameBytes buf f =
     concat (map (\<lambda>ch. le16 (toInt16 (scaleSample (sampleAt buf ch f)))) [0..<numberOfChannels buf])"

definition sampleBytes :: "AudioBuffer \<Rightarrow> byte list" where
  "sampleBytes buf = concat (map (frameBytes buf) [0..<lengthFrames buf])"

section \<open>The server's container for music\<close>

text \<open>
  \<open>pcmToWav\<close> wraps 16-bit PCM that is already encoded. It writes into a \<open>Buffer\<close> of the
  server's runtime: \<open>write\<close> copies as much of an ASCII string as fits at the offset, and
  \<open>writeUInt32LE\<close> and \<open>writeUInt16LE\<close> throw a range error for a value outside the width
  or a write past the end. The channel count and the sample rate are whole numbers, as at
  the call site \<open>pcmToWav(pcm, 2, 48000)\<close>.
\<close>

definition bufferWrite :: "byte list \<Rightarrow> string \<Rightarrow> nat \<Rightarrow> byte list" where
  "bufferWrite b str off =
     take off b @ take (length b - off) (map of_char str) @ drop (off + length str) b"

definition writeUInt32LE :: "byte list \<Rightarrow> nat \<Rightarrow> nat \<Rightarrow> error + byte list" where
  "writeUInt32LE b val off =
     (if val < 2 ^ 32 then setBytes b off (le32 (word_of_nat val)) else Inl RangeError)"

definition writeUInt16LE :: "byte list \<Rightarrow> nat \<Rightarrow> nat \<Rightarrow> error + byte list" where
  "writeUInt16LE b val off =
     (if val < 2 ^ 16 then setBytes b off (le16 (word_of_nat val)) else Inl RangeError)"

definition pcmToWav :: "byte list \<Rightarrow> nat \<Rightarrow> nat \<Rightarrow> error + byte list" where
  "pcmToWav pcm channels rate =
     (let dataSize = length pcm;
          header = replicate 44 (0 :: byte);
          header = bufferWrite header ''RIFF'' 0
      in thenE (writeUInt32LE header (36 + dataSize) 4) (\<lambda>header.
         let header = bufferWrite header ''WAVE'' 8;
             header = bufferWrite header ''fmt '' 12
         in thenE (writeUInt32LE header 16 16) (\<lambda>header.
            thenE (writeUInt16LE header 1 20) (\<lambda>header.
            thenE (writeUInt16LE header channels 22) (\<lambda>header.
            thenE (writeUInt32LE header rate 24) (\<lambda>header.
            thenE (writeUInt32LE header (rate * channels * 2) 28) (\<lambda>header.
            thenE (writeUInt16LE header (channels * 2) 32) (\<lambda>header.
            thenE (writeUInt16LE header 16 34) (\<lambda>header.
            let header = bufferWrite header ''data'' 36
            in thenE (writeUInt32LE header dataSize 40) (\<lambda>header.
               Inr (header @ pcm)))))))))))"

section \<open>Example inputs\<close>

definition nar :: Segment where
  "nar = \<lparr>segType = narration, segText = ''It was late.'', speaker = None\<rparr>"

definition dlg :: Segment where
  "dlg = \<lparr>segType = dialogue, segText = ''Who is there?'', speaker = Some ''Margaret''\<rparr>"

definition sceneLine :: "int \<Rightarrow> int \<Rightarrow> ScriptDialogueLine" where
  "sceneLine scene idx =
     \<lparr>sceneIndex = scene, lineIndex = idx, character = ''MAYA'', parenthetical = None,
      lineText = ''Who got there first?''\<rparr>"

text \<open>Two decoded clips and a decoder that accepts two payloads and rejects the rest.\<close>

definition monoClip :: AudioBuffer where
  "monoClip = \<lparr>sampleRate = 44100, lengthFrames = 2, channelData = [[Num (3 / 10), Num (- 1 / 2)]]\<rparr>"

definition stereoClip :: AudioBuffer where
  "stereoClip =
     \<lparr>sampleRate = 48000, lengthFrames = 2,
      channelData = [[Num (1 / 2), Num (- 1 / 4)], [Num 0, Num (1 / 4)]]\<rparr>"

definition exDecode :: decoder where
  "exDecode b64 =
     (if b64 = ''mono'' then Some monoClip else if b64 = ''stereo'' then Some stereoClip else None)"

text \<open>The same decoder, with silence of length 0 in place of each rejected payload.\<close>

definition exDecodeSilent :: decoder where
  "exDecodeSilent b64 =
     (case exDecode b64 of Some buf \<Rightarrow> Some buf | None \<Rightarrow> Some (createBuffer 1 0 44100))"

definition exSfx :: "string \<Rightarrow> SfxItem" where
  "exSfx b64 = \<lparr>segmentIndex = 1, prompt = ''door creaks'', startTime = 0, audioBase64 = b64\<rparr>"

definition exSceneClip :: "string \<Rightarrow> SceneClipItem" where
  "exSceneClip b64 =
     \<lparr>clipSceneIndex = 0, clipPrompt = ''rain'', clipStartTime = 0, clipAudioBase64 = b64\<rparr>"

section \<open>Properties of the cadence schedule\<close>

lemma cadenceLoop_step:
  "i < length units \<Longrightarrow>
   cadenceLoop gap units durations i (st, c) =
     cadenceLoop gap units durations (Suc i)
       (st @ [if 0 < i then c + gap (units ! (i - 1)) (units ! i) else c],
        (if 0 < i then c + gap (units ! (i - 1)) (units ! i) else c) + durationAt durations i)"
  by (subst cadenceLoop.simps) (simp add: Let_def)

lemma cadenceLoop_stop:
  "\<not> i < length units \<Longrightarrow> cadenceLoop gap units durations i (st, c) = (st, c)"
  by (subst cadenceLoop.simps) simp

lemma cadenceLoop_length:
  "length (fst (cadenceLoop gap units durations i (st, c))) = length st + (length units - i)"
proof (induction "length units - i" arbitrary: i st c)
  case 0
  then show ?case by (simp add: cadenceLoop_stop)
next
  case (Suc k)
  then have lt: "i < length units" and k: "k = length units - Suc i" by simp_all
  show ?case
    using Suc.hyps(1) [OF k] lt by (simp add: cadenceLoop_step [OF lt])
qed

lemma cadenceLoop_prefix:
  "j < length st \<Longrightarrow> fst (cadenceLoop gap units durations i (st, c)) ! j = st ! j"
proof (induction "length units - i" arbitrary: i st c)
  case 0
  then show ?case by (simp add: cadenceLoop_stop)
next
  case (Suc k)
  then have lt: "i < length units" and k: "k = length units - Suc i" by simp_all
  show ?case
    using Suc.hyps(1) [OF k, of "st @ [if 0 < i then c + gap (units ! (i - 1)) (units ! i) else c]"] Suc.prems
    by (simp add: cadenceLoop_step [OF lt] nth_append)
qed

lemma cadenceLoop_here:
  assumes "i < length units" "length st = i"
  shows "fst (cadenceLoop gap units durations i (st, c)) ! i =
           (if 0 < i then c + gap (units ! (i - 1)) (units ! i) else c)"
  using assms by (simp add: cadenceLoop_step cadenceLoop_prefix nth_append)

lemma cadenceLoop_succ:
  "length st = i \<Longrightarrow> (0 < i \<Longrightarrow> c = st ! (i - 1) + durationAt durations (i - 1)) \<Longrightarrow>
   i \<le> Suc j \<Longrightarrow> Suc j < length units \<Longrightarrow>
   fst (cadenceLoop gap units durations i (st, c)) ! Suc j =
     fst (cadenceLoop gap units durations i (st, c)) ! j + durationAt durations j
       + gap (units ! j) (units ! Suc j)"
proof (induction "length units - i" arbitrary: i st c)
  case 0
  then show ?case by simp
next
  case (Suc k)
  then have lt: "i < length units" and k: "k = length units - Suc i" by simp_all
  let ?c1 = "if 0 < i then c + gap (units ! (i - 1)) (units ! i) else c"
  show ?case
  proof (cases "i = Suc j")
    case True
    have a: "fst (cadenceLoop gap units durations i (st, c)) ! Suc j = ?c1"
      using cadenceLoop_here [OF lt Suc.prems(1)] True by simp
    have b: "fst (cadenceLoop gap units durations i (st, c)) ! j = st ! j"
      using True Suc.prems(1) by (simp add: cadenceLoop_prefix)
    show ?thesis using a b Suc.prems(2) True by simp
  next
    case False
    with Suc.prems have le: "Suc i \<le> Suc j" by simp
    have "fst (cadenceLoop gap units durations (Suc i) (st @ [?c1], ?c1 + durationAt durations i)) ! Suc j =
          fst (cadenceLoop gap units durations (Suc i) (st @ [?c1], ?c1 + durationAt durations i)) ! j
            + durationAt durations j + gap (units ! j) (units ! Suc j)"
      by (rule Suc.hyps(1) [OF k _ _ le Suc.prems(4)]) (use Suc.prems(1) in \<open>simp_all add: nth_append\<close>)
    then show ?thesis by (simp add: cadenceLoop_step [OF lt])
  qed
qed

lemma cadenceLoop_cursor:
  "length st = i \<Longrightarrow> i < length units \<Longrightarrow>
   snd (cadenceLoop gap units durations i (st, c)) =
     last (fst (cadenceLoop gap units durations i (st, c)))
       + durationAt durations (length units - 1)"
proof (induction "length units - i" arbitrary: i st c)
  case 0
  then show ?case by simp
next
  case (Suc k)
  then have lt: "i < length units" and k: "k = length units - Suc i" by simp_all
  let ?c1 = "if 0 < i then c + gap (units ! (i - 1)) (units ! i) else c"
  show ?case
  proof (cases "Suc i < length units")
    case True
    have "snd (cadenceLoop gap units durations (Suc i) (st @ [?c1], ?c1 + durationAt durations i)) =
       last (fst (cadenceLoop gap units durations (Suc i) (st @ [?c1], ?c1 + durationAt durations i)))
       + durationAt durations (length units - 1)"
      by (rule Suc.hyps(1) [OF k _ True]) (use Suc.prems(1) in simp)
    then show ?thesis by (simp add: cadenceLoop_step [OF lt])
  next
    case False
    with lt have e: "Suc i = length units" by simp
    then have i: "i = length units - 1" by simp
    show ?thesis
      using False by (simp add: cadenceLoop_step [OF lt] cadenceLoop_stop) (simp add: i)
  qed
qed


lemma cadenceLoop_first:
  "units \<noteq> [] \<Longrightarrow> fst (cadenceLoop gap units durations 0 ([], 0)) ! 0 = 0"
  using cadenceLoop_here [of 0 units "[]" gap durations 0] by simp

lemma cadenceLoop_recurrence:
  "Suc i < length units \<Longrightarrow>
   fst (cadenceLoop gap units durations 0 ([], 0)) ! Suc i =
     fst (cadenceLoop gap units durations 0 ([], 0)) ! i + durationAt durations i
       + gap (units ! i) (units ! Suc i)"
  by (rule cadenceLoop_succ) simp_all

lemma durationAt_nonneg: "\<forall>d\<in>set durations. 0 \<le> d \<Longrightarrow> 0 \<le> durationAt durations i"
  by (simp add: durationAt_def)

lemma segmentGap_nonneg: "0 \<le> segmentGap a b"
  by (simp add: segmentGap_def GAP_NAR_TO_DLG_def GAP_DLG_TO_NAR_def GAP_DLG_TO_DLG_def)

lemma lineGap_nonneg: "0 \<le> lineGap a b"
  by (simp add: lineGap_def GAP_BETWEEN_SCENES_def GAP_DLG_TO_DLG_def)

lemma cadenceLoop_no_overlap:
  assumes "\<And>a b. 0 \<le> gap a b" and "Suc i < length units"
  shows "fst (cadenceLoop gap units durations 0 ([], 0)) ! i + durationAt durations i
           \<le> fst (cadenceLoop gap units durations 0 ([], 0)) ! Suc i"
  using cadenceLoop_recurrence [OF assms(2), of gap durations] assms(1) [of "units ! i" "units ! Suc i"]
  by simp

lemma cadenceLoop_sorted:
  assumes "\<And>a b. 0 \<le> gap a b" and "\<forall>d\<in>set durations. 0 \<le> d"
  shows "sorted (fst (cadenceLoop gap units durations 0 ([], 0)))"
proof -
  have "fst (cadenceLoop gap units durations 0 ([], 0)) ! i
          \<le> fst (cadenceLoop gap units durations 0 ([], 0)) ! Suc i"
    if "Suc i < length units" for i
    using cadenceLoop_no_overlap [of gap i units durations, OF assms(1) that]
      durationAt_nonneg [OF assms(2), of i] by simp
  then show ?thesis
    by (simp add: sorted_iff_nth_Suc cadenceLoop_length)
qed


lemma example_schedule:
  "fst (segmentStartTimes [nar, dlg, dlg, nar] [1, 2, 3 / 2, 1 / 2]) = [0, 122 / 100, 334 / 100, 502 / 100]"
  by (simp add: segmentStartTimes_def cadenceLoop_step cadenceLoop_stop segmentGap_def nar_def dlg_def
      durationAt_def GAP_NAR_TO_DLG_def GAP_DLG_TO_NAR_def GAP_DLG_TO_DLG_def)

text \<open>
  Claim C1. The book reader's schedule has one start time per segment; the first is 0; each
  later one is the previous start plus the previous segment's duration (the cursor after it)
  plus the pause of the ordered pair of categories, and the final cursor is the last start
  plus the last duration. The pause is 0.22 for narration to dialogue,
  0.18 for dialogue to narration, 0.12 for dialogue to dialogue and 0 for narration to
  narration. For narration 1.0 s, dialogue 2.0 s, dialogue 1.5 s, narration 0.5 s the start
  times are 0, 1.22, 3.34 and 5.02.
\<close>

theorem cadence_schedule:
  "length (fst (segmentStartTimes segs durs)) = length segs
   \<and> (segs \<noteq> [] \<longrightarrow> fst (segmentStartTimes segs durs) ! 0 = 0)
   \<and> (\<forall>i. Suc i < length segs \<longrightarrow>
         fst (segmentStartTimes segs durs) ! Suc i =
           fst (segmentStartTimes segs durs) ! i + durationAt durs i
             + segmentGap (segs ! i) (segs ! Suc i))
   \<and> (segs \<noteq> [] \<longrightarrow>
         snd (segmentStartTimes segs durs) =
           last (fst (segmentStartTimes segs durs)) + durationAt durs (length segs - 1))
   \<and> (\<forall>a b. segmentGap a b =
         (case (segType a, segType b) of
            (narration, dialogue) \<Rightarrow> 22 / 100
          | (dialogue, narration) \<Rightarrow> 18 / 100
          | (dialogue, dialogue) \<Rightarrow> 12 / 100
          | (narration, narration) \<Rightarrow> 0))
   \<and> fst (segmentStartTimes [nar, dlg, dlg, nar] [1, 2, 3 / 2, 1 / 2])
       = [0, 122 / 100, 334 / 100, 502 / 100]"
proof -
  have gaps: "segmentGap a b =
         (case (segType a, segType b) of
            (narration, dialogue) \<Rightarrow> 22 / 100
          | (dialogue, narration) \<Rightarrow> 18 / 100
          | (dialogue, dialogue) \<Rightarrow> 12 / 100
          | (narration, narration) \<Rightarrow> 0)" for a b
    by (cases "segType a"; cases "segType b")
      (simp_all add: segmentGap_def GAP_NAR_TO_DLG_def GAP_DLG_TO_NAR_def GAP_DLG_TO_DLG_def)
  have fin: "snd (cadenceLoop segmentGap segs durs 0 ([], 0)) =
           last (fst (cadenceLoop segmentGap segs durs 0 ([], 0))) + durationAt durs (length segs - 1)"
    if "segs \<noteq> []"
    using that by (intro cadenceLoop_cursor) simp_all
  show ?thesis
    unfolding segmentStartTimes_def
    using gaps example_schedule fin
    by (simp add: cadenceLoop_length cadenceLoop_first cadenceLoop_recurrence segmentStartTimes_def)
qed

theorem cadence_schedule_witness:
  "[nar, dlg] \<noteq> [] \<and> Suc 0 < length [nar, dlg]
   \<and> length (fst (segmentStartTimes [nar, dlg] [1, 2])) = 2
   \<and> fst (segmentStartTimes [nar, dlg] [1, 2]) ! 0 = 0
   \<and> fst (segmentStartTimes [nar, dlg] [1, 2]) ! Suc 0 = 0 + 1 + 22 / 100"
proof -
  note t = cadence_schedule [of "[nar, dlg]" "[1, 2]"]
  have len: "length (fst (segmentStartTimes [nar, dlg] [1, 2])) = 2" using t by simp
  have z: "fst (segmentStartTimes [nar, dlg] [1, 2]) ! 0 = 0" using t by simp
  have "fst (segmentStartTimes [nar, dlg] [1, 2]) ! Suc 0 =
          fst (segmentStartTimes [nar, dlg] [1, 2]) ! 0 + durationAt [1, 2] 0
            + segmentGap ([nar, dlg] ! 0) ([nar, dlg] ! Suc 0)"
    using t by simp
  moreover have "segmentGap nar dlg = 22 / 100"
    using t by (simp add: nar_def dlg_def)
  ultimately show ?thesis using len z by (simp add: durationAt_def)
qed

text \<open>
  Claim C2. With durations that are not negative, a unit ends no later than its successor
  starts, and the start times are in non-decreasing order; this holds for the schedule of
  the book reader and for the schedule of the screenplay reader.
\<close>

theorem speech_non_overlap:
  assumes "\<forall>d\<in>set durs. 0 \<le> d"
  shows "(\<forall>i. Suc i < length segs \<longrightarrow>
            fst (segmentStartTimes segs durs) ! i + durationAt durs i
              \<le> fst (segmentStartTimes segs durs) ! Suc i)
         \<and> sorted (fst (segmentStartTimes segs durs))
         \<and> (\<forall>i. Suc i < length dlines \<longrightarrow>
            fst (lineStartTimes dlines durs) ! i + durationAt durs i
              \<le> fst (lineStartTimes dlines durs) ! Suc i)
         \<and> sorted (fst (lineStartTimes dlines durs))"
  unfolding segmentStartTimes_def lineStartTimes_def
  using assms
  by (simp add: cadenceLoop_no_overlap cadenceLoop_sorted segmentGap_nonneg lineGap_nonneg)


theorem speech_non_overlap_witness:
  "(0::real) \<le> 1 \<and> (0::real) \<le> 2
   \<and> fst (segmentStartTimes [nar, dlg] [1, 2]) ! 0 + 1 \<le> fst (segmentStartTimes [nar, dlg] [1, 2]) ! Suc 0
   \<and> fst (lineStartTimes [sceneLine 0 0, sceneLine 1 1] [1, 2]) ! 0 + 1
        \<le> fst (lineStartTimes [sceneLine 0 0, sceneLine 1 1] [1, 2]) ! Suc 0"
proof -
  have h: "\<forall>d\<in>set [1, 2 :: real]. 0 \<le> d" by simp
  note t = speech_non_overlap [OF h, of "[nar, dlg]" "[sceneLine 0 0, sceneLine 1 1]"]
  have "fst (segmentStartTimes [nar, dlg] [1, 2]) ! 0 + durationAt [1, 2] 0
          \<le> fst (segmentStartTimes [nar, dlg] [1, 2]) ! Suc 0"
    using t by simp
  moreover have "fst (lineStartTimes [sceneLine 0 0, sceneLine 1 1] [1, 2]) ! 0 + durationAt [1, 2] 0
          \<le> fst (lineStartTimes [sceneLine 0 0, sceneLine 1 1] [1, 2]) ! Suc 0"
    using t by simp
  ultimately show ?thesis by (simp add: durationAt_def)
qed

section \<open>Properties of the scene start times\<close>

lemma scanPrev_step:
  "0 \<le> j \<Longrightarrow> isNullAt rawTimes (nat j) \<Longrightarrow> scanPrev rawTimes j = scanPrev rawTimes (j - 1)"
  by (subst scanPrev.simps) simp

lemma scanPrev_stop:
  "\<not> (0 \<le> j \<and> isNullAt rawTimes (nat j)) \<Longrightarrow> scanPrev rawTimes j = j"
  by (subst scanPrev.simps) auto

lemma scanNext_step:
  "isNullAt rawTimes j \<Longrightarrow> scanNext rawTimes j = scanNext rawTimes (Suc j)"
  by (subst scanNext.simps) (simp add: isNullAt_def)

lemma scanNext_stop:
  "\<not> isNullAt rawTimes j \<Longrightarrow> scanNext rawTimes j = j"
  by (subst scanNext.simps) simp

lemma scanPrev_anchor:
  "p \<le> j \<Longrightarrow> \<not> isNullAt rawTimes p \<Longrightarrow> (\<forall>k. p < k \<and> k \<le> j \<longrightarrow> isNullAt rawTimes k) \<Longrightarrow>
   scanPrev rawTimes (int j) = int p"
proof (induction "j - p" arbitrary: j)
  case 0
  then show ?case by (simp add: scanPrev_stop)
next
  case (Suc d)
  then have "p < j" by simp
  then obtain j' where j: "j = Suc j'" by (cases j) simp_all
  have null: "isNullAt rawTimes j" using Suc.prems(3) \<open>p < j\<close> by simp
  have "scanPrev rawTimes (int j') = int p"
    using Suc.hyps Suc.prems j by (intro Suc.hyps(1)) simp_all
  moreover have "scanPrev rawTimes (int j) = scanPrev rawTimes (int j - 1)"
    using null by (intro scanPrev_step) simp_all
  ultimately show ?case using j by simp
qed

lemma scanPrev_none:
  "(\<forall>k. k \<le> j \<longrightarrow> isNullAt rawTimes k) \<Longrightarrow> scanPrev rawTimes (int j) = - 1"
proof (induction j)
  case 0
  then have "scanPrev rawTimes 0 = scanPrev rawTimes (0 - 1)"
    by (intro scanPrev_step) simp_all
  then show ?case by (simp add: scanPrev_stop)
next
  case (Suc j)
  then have "scanPrev rawTimes (int (Suc j)) = scanPrev rawTimes (int (Suc j) - 1)"
    by (intro scanPrev_step) simp_all
  with Suc show ?case by simp
qed

lemma scanNext_anchor:
  "j \<le> q \<Longrightarrow> \<not> isNullAt rawTimes q \<Longrightarrow> (\<forall>k. j \<le> k \<and> k < q \<longrightarrow> isNullAt rawTimes k) \<Longrightarrow>
   scanNext rawTimes j = q"
proof (induction "q - j" arbitrary: j)
  case 0
  then show ?case by (simp add: scanNext_stop)
next
  case (Suc d)
  then have lt: "j < q" by simp
  then have null: "isNullAt rawTimes j" using Suc.prems(3) by simp
  have "scanNext rawTimes (Suc j) = q"
    using Suc.hyps Suc.prems lt by (intro Suc.hyps(1)) simp_all
  then show ?case using null by (simp add: scanNext_step)
qed

lemma not_isNullAt_length: "\<not> isNullAt rawTimes (length rawTimes)"
  by (simp add: isNullAt_def)

lemma sceneStartTimes_nth:
  "i < length rawTimes \<Longrightarrow> sceneStartTimes rawTimes cursor ! i = interpolateScene rawTimes cursor i"
  by (simp add: sceneStartTimes_def)



lemma interpolateScene_between:
  assumes "p < i" "i < q" "q < length rawTimes"
    and "rawTimes ! p = Some a" "rawTimes ! q = Some b"
    and "\<forall>k. p < k \<and> k < q \<longrightarrow> rawTimes ! k = None"
  shows "interpolateScene rawTimes cursor i = a + (real (i - p) / real (q - p)) * (b - a)"
proof -
  have none: "rawTimes ! i = None" using assms by simp
  have np: "\<not> isNullAt rawTimes p" and nq: "\<not> isNullAt rawTimes q"
    using assms by (simp_all add: isNullAt_def)
  have mid: "isNullAt rawTimes k" if "p < k" "k < q" for k
    using that assms by (simp add: isNullAt_def)
  have "scanPrev rawTimes (int (i - 1)) = int p"
    using assms np mid by (intro scanPrev_anchor) auto
  then have prev: "scanPrev rawTimes (int i - 1) = int p"
    using assms(1) by (simp add: of_nat_diff)
  have nxt: "scanNext rawTimes (Suc i) = q"
    using assms nq mid by (intro scanNext_anchor) auto
  have "real_of_int (int i - int p) = real (i - p)" "real_of_int (int q - int p) = real (q - p)"
    using assms by (simp_all add: of_nat_diff)
  then show ?thesis
    using assms by (simp add: interpolateScene_def none prev nxt numberAt_def Let_def)
qed

lemma interpolateScene_trailing:
  assumes "p < i" "i < length rawTimes"
    and "rawTimes ! p = Some a"
    and "\<forall>k. p < k \<and> k < length rawTimes \<longrightarrow> rawTimes ! k = None"
  shows "interpolateScene rawTimes cursor i =
           a + (real (i - p) / real (length rawTimes - p)) * (cursor - a)"
proof -
  have none: "rawTimes ! i = None" using assms by simp
  have np: "\<not> isNullAt rawTimes p"
    using assms by (simp add: isNullAt_def)
  have mid: "isNullAt rawTimes k" if "p < k" "k < length rawTimes" for k
    using that assms by (simp add: isNullAt_def)
  have "scanPrev rawTimes (int (i - 1)) = int p"
    using assms np mid by (intro scanPrev_anchor) auto
  then have prev: "scanPrev rawTimes (int i - 1) = int p"
    using assms(1) by (simp add: of_nat_diff)
  have nxt: "scanNext rawTimes (Suc i) = length rawTimes"
    using assms mid by (intro scanNext_anchor not_isNullAt_length) auto
  have "real_of_int (int i - int p) = real (i - p)"
    "real_of_int (int (length rawTimes) - int p) = real (length rawTimes - p)"
    using assms by (simp_all add: of_nat_diff)
  then show ?thesis
    using assms by (simp add: interpolateScene_def none prev nxt numberAt_def Let_def)
qed

lemmas sceneStartTimes_eval =
  sceneStartTimes_def interpolateScene_def scanPrev_step scanPrev_stop
  scanNext_step scanNext_stop isNullAt_def numberAt_def upt_conv_Cons Let_def

text \<open>
  Claim C3, as stated: the scenes anchored at 2.0 and unanchored, with the timeline ending
  at 10.0, would put the second scene at 10.0. The server puts it elsewhere.
\<close>

theorem trailing_anchor_counterexample:
  "sceneStartTimes [Some 2, None] 10 ! 1 \<noteq> 10"
  by (simp add: sceneStartTimes_eval)

text \<open>
  Claim C3, amended. For an unanchored scene \<open>i\<close> whose nearest anchor before it is at
  \<open>p\<close> and which has no anchored scene after it, the final cursor is the forward anchor
  value and its position is the number of scenes \<open>n\<close>: the start time is
  \<open>anchor p + ((i - p) / (n - p)) * (cursor - anchor p)\<close>. For the scenes anchored at 2.0
  and unanchored, with the timeline ending at 10.0, the second scene starts at
  \<open>2.0 + (1 / 2) * (10.0 - 2.0) = 6.0\<close>.
\<close>

theorem trailing_anchor_interpolation:
  "(p < i \<and> i < length rawTimes \<and> rawTimes ! p = Some a
      \<and> (\<forall>k. p < k \<and> k < length rawTimes \<longrightarrow> rawTimes ! k = None)
    \<longrightarrow> sceneStartTimes rawTimes cursor ! i =
          a + (real (i - p) / real (length rawTimes - p)) * (cursor - a))
   \<and> sceneStartTimes [Some 2, None] 10 = [2, 2 + (1 / 2) * (10 - 2)]
   \<and> sceneStartTimes [Some 2, None] 10 ! 1 = 6"
proof -
  have "sceneStartTimes [Some 2, None] 10 = [2, 2 + (1 / 2) * (10 - 2)]"
    by (simp add: sceneStartTimes_eval)
  then show ?thesis
    by (auto simp: sceneStartTimes_nth interpolateScene_trailing)
qed

theorem trailing_anchor_interpolation_witness:
  "(0::nat) < 2 \<and> (2::nat) < length [Some (2::real), None, None]
   \<and> [Some (2::real), None, None] ! 0 = Some 2
   \<and> [Some (2::real), None, None] ! 1 = None \<and> [Some (2::real), None, None] ! 2 = None
   \<and> sceneStartTimes [Some 2, None, None] 11 ! 2 = 8"
proof -
  have h: "\<forall>k. 0 < k \<and> k < length [Some (2::real), None, None]
         \<longrightarrow> [Some (2::real), None, None] ! k = None"
    by (auto simp: nth_Cons split: nat.splits)
  have "sceneStartTimes [Some 2, None, None] 11 ! 2 =
          2 + (real (2 - 0) / real (length [Some (2::real), None, None] - 0)) * (11 - 2)"
    using trailing_anchor_interpolation [of 0 2 "[Some 2, None, None]" 2 11] h by simp
  then show ?thesis by simp
qed

text \<open>
  Claim C4. An unanchored scene \<open>i\<close> whose nearest anchored neighbours are \<open>p\<close> before it
  and \<open>q\<close> after it starts at \<open>anchor p + ((i - p) / (q - p)) * (anchor q - anchor p)\<close>;
  the scenes anchored at 0.0, unanchored, unanchored, anchored at 9.0 start at 0, 3, 6, 9.
\<close>

theorem anchor_interpolation:
  "(p < i \<and> i < q \<and> q < length rawTimes \<and> rawTimes ! p = Some a \<and> rawTimes ! q = Some b
      \<and> (\<forall>k. p < k \<and> k < q \<longrightarrow> rawTimes ! k = None)
    \<longrightarrow> sceneStartTimes rawTimes cursor ! i = a + (real (i - p) / real (q - p)) * (b - a))
   \<and> sceneStartTimes [Some 0, None, None, Some 9] cursor = [0, 3, 6, 9]"
proof -
  have "sceneStartTimes [Some 0, None, None, Some 9] cursor = [0, 3, 6, 9]"
    by (simp add: sceneStartTimes_eval)
  then show ?thesis
    by (auto simp: sceneStartTimes_nth interpolateScene_between)
qed

theorem anchor_interpolation_witness:
  "(0::nat) < 1 \<and> (1::nat) < 3 \<and> (3::nat) < length [Some (1::real), None, None, Some 7, None]
   \<and> [Some (1::real), None, None, Some 7, None] ! 0 = Some 1
   \<and> [Some (1::real), None, None, Some 7, None] ! 3 = Some 7
   \<and> [Some (1::real), None, None, Some 7, None] ! 1 = None
   \<and> [Some (1::real), None, None, Some 7, None] ! 2 = None
   \<and> sceneStartTimes [Some 1, None, None, Some 7, None] 20 ! 1 = 3"
proof -
  have h: "\<forall>k. 0 < k \<and> k < 3 \<longrightarrow> [Some (1::real), None, None, Some 7, None] ! k = None"
    by (auto simp: nth_Cons split: nat.splits)
  have "sceneStartTimes [Some 1, None, None, Some 7, None] 20 ! 1 =
          1 + (real (1 - 0) / real (3 - 0)) * (7 - 1)"
    using anchor_interpolation [of 0 1 3 "[Some 1, None, None, Some 7, None]" 1 7 20] h
    by (simp add: numeral_3_eq_3)
  then show ?thesis by simp
qed

section \<open>Properties of the mixdown\<close>

lemma mixAudio_format:
  "ctxSampleRate (mixAudio decode segmentsAudio segments sfxList)
     = firstSampleRate (decodeSpeech decode segmentsAudio)"
  "ctxChannels (mixAudio decode segmentsAudio segments sfxList)
     = firstNumChannels (decodeSpeech decode segmentsAudio)"
  by (simp_all add: mixAudio_def Let_def split: prod.splits)

lemma mixAudioScreenplay_format:
  "ctxSampleRate (mixAudioScreenplay decode linesAudio dialogueLines sfxList musicList sceneTimes)
     = firstSampleRate (decodeSpeech decode linesAudio)"
  "ctxChannels (mixAudioScreenplay decode linesAudio dialogueLines sfxList musicList sceneTimes)
     = firstNumChannels (decodeSpeech decode linesAudio)"
  by (simp_all add: mixAudioScreenplay_def Let_def split: prod.splits)

lemma createBuffer_fields:
  "sampleRate (createBuffer numCh len sr) = sr"
  "numberOfChannels (createBuffer numCh len sr) = numCh"
  "lengthFrames (createBuffer numCh len sr) = len"
  "duration (createBuffer numCh len sr) = real len / sr"
  by (simp_all add: createBuffer_def numberOfChannels_def duration_def)

lemma first_format_cases:
  "firstSampleRate (decodeSpeech decode []) = 44100"
  "firstNumChannels (decodeSpeech decode []) = 1"
  "decode b64 = Some buf \<Longrightarrow> firstSampleRate (decodeSpeech decode (b64 # rest)) = sampleRate buf"
  "decode b64 = Some buf \<Longrightarrow> firstNumChannels (decodeSpeech decode (b64 # rest)) = numberOfChannels buf"
  "decode b64 = None \<Longrightarrow> firstSampleRate (decodeSpeech decode (b64 # rest)) = 44100"
  "decode b64 = None \<Longrightarrow> firstNumChannels (decodeSpeech decode (b64 # rest)) = 1"
  by (simp_all add: firstSampleRate_def firstNumChannels_def createBuffer_fields)

lemma exClip_fields:
  "sampleRate stereoClip = 48000" "numberOfChannels stereoClip = 2" "duration stereoClip = 2 / 48000"
  "sampleRate monoClip = 44100" "numberOfChannels monoClip = 1" "duration monoClip = 2 / 44100"
  by (simp_all add: stereoClip_def monoClip_def numberOfChannels_def duration_def)

text \<open>
  Claim C9, as stated: when the first clip fails to decode and a later one decodes, the
  later clip's sample rate and channel count would be used. Here the second clip decodes
  to 48000 Hz stereo, and the mixdown is 44100 Hz mono.
\<close>

theorem render_format_counterexample:
  "exDecode ''corrupt'' = None \<and> exDecode ''stereo'' = Some stereoClip
   \<and> ctxSampleRate (mixAudio exDecode [''corrupt'', ''stereo''] [nar, dlg] []) \<noteq> sampleRate stereoClip
   \<and> ctxChannels (mixAudio exDecode [''corrupt'', ''stereo''] [nar, dlg] []) \<noteq> numberOfChannels stereoClip"
  by (simp add: mixAudio_format firstSampleRate_def firstNumChannels_def createBuffer_fields
      exDecode_def exClip_fields)

text \<open>
  Claim C9, amended. In both mixers the sample rate and channel count of the mixdown are
  those of the first speech buffer: of the first clip where it decodes, of the 44100 Hz
  mono placeholder where the first clip fails to decode (whatever the later clips are),
  and the default 44100 Hz mono where there is no speech clip at all.
\<close>

theorem render_format:
  "(segmentsAudio = [] \<longrightarrow>
      ctxSampleRate (mixAudio decode segmentsAudio segments sfxList) = 44100
      \<and> ctxChannels (mixAudio decode segmentsAudio segments sfxList) = 1
      \<and> ctxSampleRate (mixAudioScreenplay decode segmentsAudio dlines sfx music sceneTimes) = 44100
      \<and> ctxChannels (mixAudioScreenplay decode segmentsAudio dlines sfx music sceneTimes) = 1)
   \<and> (\<forall>b64 rest buf. segmentsAudio = b64 # rest \<and> decode b64 = Some buf \<longrightarrow>
      ctxSampleRate (mixAudio decode segmentsAudio segments sfxList) = sampleRate buf
      \<and> ctxChannels (mixAudio decode segmentsAudio segments sfxList) = numberOfChannels buf
      \<and> ctxSampleRate (mixAudioScreenplay decode segmentsAudio dlines sfx music sceneTimes) = sampleRate buf
      \<and> ctxChannels (mixAudioScreenplay decode segmentsAudio dlines sfx music sceneTimes)
           = numberOfChannels buf)
   \<and> (\<forall>b64 rest. segmentsAudio = b64 # rest \<and> decode b64 = None \<longrightarrow>
      ctxSampleRate (mixAudio decode segmentsAudio segments sfxList) = 44100
      \<and> ctxChannels (mixAudio decode segmentsAudio segments sfxList) = 1
      \<and> ctxSampleRate (mixAudioScreenplay decode segmentsAudio dlines sfx music sceneTimes) = 44100
      \<and> ctxChannels (mixAudioScreenplay decode segmentsAudio dlines sfx music sceneTimes) = 1)"
  by (auto simp: mixAudio_format mixAudioScreenplay_format firstSampleRate_def firstNumChannels_def
      createBuffer_fields)

theorem render_format_witness:
  "exDecode ''stereo'' = Some stereoClip \<and> exDecode ''corrupt'' = None
   \<and> ctxSampleRate (mixAudio exDecode [''stereo'', ''mono''] [nar, dlg] []) = 48000
   \<and> ctxChannels (mixAudio exDecode [''stereo'', ''mono''] [nar, dlg] []) = 2
   \<and> ctxSampleRate (mixAudio exDecode [''corrupt'', ''stereo''] [nar, dlg] []) = 44100
   \<and> ctxChannels (mixAudio exDecode [''corrupt'', ''stereo''] [nar, dlg] []) = 1
   \<and> ctxSampleRate (mixAudioScreenplay exDecode [] [] [] [] []) = 44100
   \<and> ctxChannels (mixAudioScreenplay exDecode [] [] [] [] []) = 1"
proof -
  have d: "exDecode ''stereo'' = Some stereoClip" "exDecode ''corrupt'' = None"
    by (simp_all add: exDecode_def)
  have a: "ctxSampleRate (mixAudio exDecode [''stereo'', ''mono''] [nar, dlg] []) = sampleRate stereoClip
      \<and> ctxChannels (mixAudio exDecode [''stereo'', ''mono''] [nar, dlg] []) = numberOfChannels stereoClip"
    using render_format [of "[''stereo'', ''mono'']" exDecode "[nar, dlg]" "[]"] d by simp
  have b: "ctxSampleRate (mixAudio exDecode [''corrupt'', ''stereo''] [nar, dlg] []) = 44100
      \<and> ctxChannels (mixAudio exDecode [''corrupt'', ''stereo''] [nar, dlg] []) = 1"
    using render_format [of "[''corrupt'', ''stereo'']" exDecode "[nar, dlg]" "[]"] d by simp
  have c: "ctxSampleRate (mixAudioScreenplay exDecode [] [] [] [] []) = 44100
      \<and> ctxChannels (mixAudioScreenplay exDecode [] [] [] [] []) = 1"
    using render_format [of "[]" exDecode _ _ "[]" "[]" "[]" "[]"] by simp
  show ?thesis using a b c d by (simp add: exClip_fields)
qed


lemma decodeSpeech_length: "length (decodeSpeech decode payloads) = length payloads"
  by (induction payloads) (simp_all split: option.splits)

lemma decodeSpeech_nth:
  "k < length payloads \<Longrightarrow>
   decodeSpeech decode payloads ! k =
     (case decode (payloads ! k) of Some buf \<Rightarrow> buf | None \<Rightarrow> createBuffer 1 1 44100)"
proof (induction payloads arbitrary: k)
  case Nil
  then show ?case by simp
next
  case (Cons b64 rest)
  then show ?case by (cases k) (simp_all split: option.splits)
qed

lemma decodeSfx_append:
  "decodeSfx decode ts (xs @ ys) = decodeSfx decode ts xs @ decodeSfx decode ts ys"
  by (induction xs) (simp_all split: option.splits)

lemma decodeSceneClips_append:
  "decodeSceneClips decode ts (xs @ ys) = decodeSceneClips decode ts xs @ decodeSceneClips decode ts ys"
  by (induction xs) (simp_all split: option.splits)

lemma decodeSfx_skip:
  "decode (audioBase64 sfx) = None \<Longrightarrow>
   decodeSfx decode ts (pre @ sfx # post) = decodeSfx decode ts (pre @ post)"
  by (simp add: decodeSfx_append)

lemma decodeSceneClips_skip:
  "decode (clipAudioBase64 item) = None \<Longrightarrow>
   decodeSceneClips decode ts (pre @ item # post) = decodeSceneClips decode ts (pre @ post)"
  by (simp add: decodeSceneClips_append)

lemma mixAudio_skip:
  "decode (audioBase64 sfx) = None \<Longrightarrow>
   mixAudio decode segmentsAudio segments (pre @ sfx # post)
     = mixAudio decode segmentsAudio segments (pre @ post)"
  by (simp add: mixAudio_def decodeSfx_skip)

lemma mixAudioScreenplay_skip:
  assumes "decode (clipAudioBase64 item) = None"
  shows "mixAudioScreenplay decode la dl (pre @ item # post) music ts
           = mixAudioScreenplay decode la dl (pre @ post) music ts"
    and "mixAudioScreenplay decode la dl sfxs (pre @ item # post) ts
           = mixAudioScreenplay decode la dl sfxs (pre @ post) ts"
  using assms by (simp_all add: mixAudioScreenplay_def decodeSceneClips_skip)

lemma mixAudio_sources_length:
  "length (ctxSources (mixAudio decode segmentsAudio segments sfxList))
     = length segmentsAudio + length (decodeSfx decode
         (fst (segmentStartTimes segments (map duration (decodeSpeech decode segmentsAudio)))) sfxList)"
  by (simp add: mixAudio_def Let_def speechSources_def decodeSpeech_length split: prod.splits)

lemma mixAudio_speech_source:
  "j < length segmentsAudio \<Longrightarrow>
   srcBuffer (ctxSources (mixAudio decode segmentsAudio segments sfxList) ! j)
     = decodeSpeech decode segmentsAudio ! j"
  by (simp add: mixAudio_def Let_def speechSources_def decodeSpeech_length nth_append
      split: prod.splits)

text \<open>
  Claim C10. An effect or music item whose payload the decoder rejects leaves no trace: the
  mixdown is the one of the list without the item (no source, no contribution to the length,
  no substitute buffer), in both mixers. A rejected speech payload keeps its slot: there is
  one speech buffer per payload, the rejected one being the silent placeholder, and it is
  scheduled as a source like the others.
\<close>

theorem failed_overlay_skipped:
  "(decode (audioBase64 sfx) = None \<longrightarrow>
      mixAudio decode segmentsAudio segments (pre @ sfx # post)
        = mixAudio decode segmentsAudio segments (pre @ post))
   \<and> (decode (clipAudioBase64 item) = None \<longrightarrow>
      mixAudioScreenplay decode segmentsAudio dlines (before @ item # after) music sceneTimes
        = mixAudioScreenplay decode segmentsAudio dlines (before @ after) music sceneTimes
      \<and> mixAudioScreenplay decode segmentsAudio dlines sfxs (before @ item # after) sceneTimes
        = mixAudioScreenplay decode segmentsAudio dlines sfxs (before @ after) sceneTimes)
   \<and> length (decodeSpeech decode segmentsAudio) = length segmentsAudio
   \<and> (\<forall>k. k < length segmentsAudio \<and> decode (segmentsAudio ! k) = None \<longrightarrow>
         decodeSpeech decode segmentsAudio ! k = createBuffer 1 1 44100
         \<and> srcBuffer (ctxSources (mixAudio decode segmentsAudio segments sfxList) ! k)
             = createBuffer 1 1 44100)
   \<and> length (ctxSources (mixAudio decode segmentsAudio segments [])) = length segmentsAudio"
  by (auto simp: mixAudio_skip mixAudioScreenplay_skip decodeSpeech_length decodeSpeech_nth
      mixAudio_sources_length mixAudio_speech_source)

theorem failed_overlay_skipped_witness:
  "exDecode (audioBase64 (exSfx ''corrupt'')) = None
   \<and> exDecode (clipAudioBase64 (exSceneClip ''corrupt'')) = None
   \<and> mixAudio exDecode [''mono'', ''corrupt''] [nar, dlg] [exSfx ''stereo'', exSfx ''corrupt'']
       = mixAudio exDecode [''mono'', ''corrupt''] [nar, dlg] [exSfx ''stereo'']
   \<and> mixAudioScreenplay exDecode [''mono''] [sceneLine 0 0] [exSceneClip ''corrupt''] [] [0]
       = mixAudioScreenplay exDecode [''mono''] [sceneLine 0 0] [] [] [0]
   \<and> mixAudioScreenplay exDecode [''mono''] [sceneLine 0 0] [] [exSceneClip ''corrupt''] [0]
       = mixAudioScreenplay exDecode [''mono''] [sceneLine 0 0] [] [] [0]
   \<and> decodeSpeech exDecode [''mono'', ''corrupt''] ! 1 = createBuffer 1 1 44100
   \<and> length (ctxSources (mixAudio exDecode [''mono'', ''corrupt''] [nar, dlg] [])) = 2"
proof -
  have d: "exDecode (audioBase64 (exSfx ''corrupt'')) = None"
    "exDecode (clipAudioBase64 (exSceneClip ''corrupt'')) = None"
    "exDecode ([''mono'', ''corrupt''] ! 1) = None"
    by (simp_all add: exDecode_def exSfx_def exSceneClip_def)
  have a: "mixAudio exDecode [''mono'', ''corrupt''] [nar, dlg] ([exSfx ''stereo''] @ exSfx ''corrupt'' # [])
       = mixAudio exDecode [''mono'', ''corrupt''] [nar, dlg] ([exSfx ''stereo''] @ [])"
    using failed_overlay_skipped [of exDecode "exSfx ''corrupt''" "[''mono'', ''corrupt'']"
        "[nar, dlg]" "[exSfx ''stereo'']" "[]"] d(1)
    by blast
  have b: "mixAudioScreenplay exDecode [''mono''] [sceneLine 0 0] ([] @ exSceneClip ''corrupt'' # []) [] [0]
       = mixAudioScreenplay exDecode [''mono''] [sceneLine 0 0] ([] @ []) [] [0]
     \<and> mixAudioScreenplay exDecode [''mono''] [sceneLine 0 0] [] ([] @ exSceneClip ''corrupt'' # []) [0]
       = mixAudioScreenplay exDecode [''mono''] [sceneLine 0 0] [] ([] @ []) [0]"
    using failed_overlay_skipped [of exDecode _ "[''mono'']" _ _ _ "exSceneClip ''corrupt''"
        "[sceneLine 0 0]" "[]" "[]" "[]" "[0]" "[]"] d(2)
    by blast
  have c: "decodeSpeech exDecode [''mono'', ''corrupt''] ! 1 = createBuffer 1 1 44100
     \<and> length (ctxSources (mixAudio exDecode [''mono'', ''corrupt''] [nar, dlg] [])) = 2"
    using failed_overlay_skipped [of exDecode _ "[''mono'', ''corrupt'']" "[nar, dlg]"] d(3)
    by simp
  show ?thesis using a b c d by simp
qed


lemma cadenceLoop_cursor_sum:
  "snd (cadenceLoop gap units durations i (st, c)) =
     c + (\<Sum>k = i..<length units. durationAt durations k)
       + (\<Sum>k = i..<length units. if 0 < k then gap (units ! (k - 1)) (units ! k) else 0)"
proof (induction "length units - i" arbitrary: i st c)
  case 0
  then show ?case by (simp add: cadenceLoop_stop)
next
  case (Suc d)
  then have lt: "i < length units" and d: "d = length units - Suc i" by simp_all
  show ?case
    using Suc.hyps(1) [OF d] lt
    by (simp add: cadenceLoop_step [OF lt] sum.atLeast_Suc_lessThan [OF lt])
qed

lemma durationAt_update:
  "durationAt (durations[k := d]) j = (if j = k \<and> k < length durations then d else durationAt durations j)"
  by (simp add: durationAt_def)

lemma sum_durationAt_update:
  assumes "k < n"
  shows "(\<Sum>j = 0..<n. durationAt durations j)
           = (\<Sum>j = 0..<n. durationAt (durations[k := 0]) j) + durationAt durations k"
proof -
  have k: "k \<in> {0..<n}" using assms by simp
  have "(\<Sum>j = 0..<n. durationAt durations j)
          = durationAt durations k + (\<Sum>j \<in> {0..<n} - {k}. durationAt durations j)"
    by (rule sum.remove [OF _ k]) simp
  moreover have "(\<Sum>j = 0..<n. durationAt (durations[k := 0]) j)
          = durationAt (durations[k := 0]) k + (\<Sum>j \<in> {0..<n} - {k}. durationAt (durations[k := 0]) j)"
    by (rule sum.remove [OF _ k]) simp
  moreover have "(\<Sum>j \<in> {0..<n} - {k}. durationAt (durations[k := 0]) j)
          = (\<Sum>j \<in> {0..<n} - {k}. durationAt durations j)"
    by (rule sum.cong) (simp_all add: durationAt_update)
  moreover have "durationAt (durations[k := 0]) k = 0"
    by (simp add: durationAt_def)
  ultimately show ?thesis by simp
qed

lemma cadenceLoop_cursor_update:
  "k < length units \<Longrightarrow>
   snd (cadenceLoop gap units durations 0 ([], 0))
     = snd (cadenceLoop gap units (durations[k := 0]) 0 ([], 0)) + durationAt durations k"
  by (simp add: cadenceLoop_cursor_sum sum_durationAt_update [of k "length units" durations])

lemma latestEnd_nonneg_aux: "m \<le> foldl (\<lambda>m c. max m (clipStart c + duration (buffer c))) m clips"
proof (induction clips arbitrary: m)
  case Nil
  then show ?case by simp
next
  case (Cons c clips)
  have "m \<le> max m (clipStart c + duration (buffer c))" by simp
  also have "\<dots> \<le> foldl (\<lambda>m c. max m (clipStart c + duration (buffer c)))
                     (max m (clipStart c + duration (buffer c))) clips"
    by (rule Cons.IH)
  finally show ?case by simp
qed

lemma latestEnd_nonneg: "0 \<le> latestEnd clips"
  unfolding latestEnd_def by (rule latestEnd_nonneg_aux)

lemma mixAudioScreenplay_length_floor:
  "1 \<le> ctxLength (mixAudioScreenplay decode linesAudio dialogueLines sfxList musicList sceneTimes)"
  by (simp add: mixAudioScreenplay_def Let_def split: prod.splits)

text \<open>
  Claim C6, on the code. With no segments, no speech payloads and no effects the book
  reader's mixer asks the renderer for a buffer of 0 frames; the screenplay reader's mixer
  asks for 1 frame there, and for at least 1 frame on every input.
\<close>

theorem empty_input_render_length:
  "ctxLength (mixAudio decode [] [] []) = 0
   \<and> ctxLength (mixAudioScreenplay decode [] [] [] [] sceneTimes) = 1
   \<and> 1 \<le> ctxLength (mixAudioScreenplay decode linesAudio dialogueLines sfxList musicList sceneTimes)"
proof -
  have "ctxLength (mixAudio decode [] [] []) = 0"
    by (simp add: mixAudio_def segmentStartTimes_def cadenceLoop_stop latestEnd_def)
  moreover have "ctxLength (mixAudioScreenplay decode [] [] [] [] sceneTimes) = 1"
    by (simp add: mixAudioScreenplay_def lineStartTimes_def cadenceLoop_stop latestEnd_def)
  ultimately show ?thesis
    using mixAudioScreenplay_length_floor by simp
qed

lemmas schedule_eval =
  segmentStartTimes_def cadenceLoop_step cadenceLoop_stop segmentGap_def durationAt_def
  GAP_NAR_TO_DLG_def GAP_DLG_TO_NAR_def GAP_DLG_TO_DLG_def nar_def dlg_def

text \<open>
  Claim C7, as stated: one corrupt clip among five would give the mixdown the length it has
  with silence of length 0 in its place. Here the third of five clips is corrupt and the
  mixdown is one frame longer than with silence of length 0.
\<close>

theorem decode_failure_counterexample:
  "exDecode ''corrupt'' = None
   \<and> exDecodeSilent ''corrupt'' = Some (createBuffer 1 0 44100)
   \<and> ctxLength (mixAudio exDecode [''mono'', ''mono'', ''corrupt'', ''mono'', ''mono'']
        [nar, nar, nar, nar, nar] []) = 9
   \<and> ctxLength (mixAudio exDecodeSilent [''mono'', ''mono'', ''corrupt'', ''mono'', ''mono'']
        [nar, nar, nar, nar, nar] []) = 8"
  by (simp add: mixAudio_def exDecode_def exDecodeSilent_def schedule_eval latestEnd_def
      exClip_fields createBuffer_fields firstSampleRate_def Let_def)


text \<open>
  Claim C7, amended. A speech clip that fails to decode is replaced by a silent placeholder
  of one frame at 44100 Hz: it occupies its slot, receives its start time by the cadence
  rule, and advances the cursor by 1 / 44100 s, so the successor starts 1 / 44100 s plus
  the pause after the placeholder's start, and the final cursor is 1 / 44100 s more than
  with silence of length 0 in its place. Every clip that decodes is scheduled with its own
  decoded buffer.
\<close>

theorem decode_failure_placeholder:
  "k < length segmentsAudio \<and> decode (segmentsAudio ! k) = None \<longrightarrow>
     decodeSpeech decode segmentsAudio ! k = createBuffer 1 1 44100
     \<and> durationAt (map duration (decodeSpeech decode segmentsAudio)) k = 1 / 44100
     \<and> (Suc k < length segments \<longrightarrow>
          fst (segmentStartTimes segments (map duration (decodeSpeech decode segmentsAudio))) ! Suc k
            = fst (segmentStartTimes segments (map duration (decodeSpeech decode segmentsAudio))) ! k
                + 1 / 44100 + segmentGap (segments ! k) (segments ! Suc k))
     \<and> (k < length segments \<longrightarrow>
          snd (segmentStartTimes segments (map duration (decodeSpeech decode segmentsAudio)))
            = snd (segmentStartTimes segments ((map duration (decodeSpeech decode segmentsAudio))[k := 0]))
                + 1 / 44100)
     \<and> (\<forall>j buf. j < length segmentsAudio \<and> decode (segmentsAudio ! j) = Some buf \<longrightarrow>
          decodeSpeech decode segmentsAudio ! j = buf
          \<and> srcBuffer (ctxSources (mixAudio decode segmentsAudio segments sfxList) ! j) = buf)"
proof (intro impI, elim conjE)
  assume k: "k < length segmentsAudio" and none: "decode (segmentsAudio ! k) = None"
  let ?durs = "map duration (decodeSpeech decode segmentsAudio)"
  have slot: "decodeSpeech decode segmentsAudio ! k = createBuffer 1 1 44100"
    using k none by (simp add: decodeSpeech_nth)
  have dur: "durationAt ?durs k = 1 / 44100"
    using k slot by (simp add: durationAt_def decodeSpeech_length createBuffer_fields)
  have succ: "fst (segmentStartTimes segments ?durs) ! Suc k
            = fst (segmentStartTimes segments ?durs) ! k + 1 / 44100
                + segmentGap (segments ! k) (segments ! Suc k)"
    if "Suc k < length segments"
    using cadenceLoop_recurrence [OF that, of segmentGap ?durs] dur
    by (simp add: segmentStartTimes_def)
  have total: "snd (segmentStartTimes segments ?durs)
            = snd (segmentStartTimes segments (?durs[k := 0])) + 1 / 44100"
    if "k < length segments"
    using cadenceLoop_cursor_update [OF that, of segmentGap ?durs] dur
    by (simp add: segmentStartTimes_def)
  have others: "decodeSpeech decode segmentsAudio ! j = buf
          \<and> srcBuffer (ctxSources (mixAudio decode segmentsAudio segments sfxList) ! j) = buf"
    if "j < length segmentsAudio" "decode (segmentsAudio ! j) = Some buf" for j buf
    using that by (simp add: decodeSpeech_nth mixAudio_speech_source)
  show "decodeSpeech decode segmentsAudio ! k = createBuffer 1 1 44100
     \<and> durationAt ?durs k = 1 / 44100
     \<and> (Suc k < length segments \<longrightarrow>
          fst (segmentStartTimes segments ?durs) ! Suc k
            = fst (segmentStartTimes segments ?durs) ! k
                + 1 / 44100 + segmentGap (segments ! k) (segments ! Suc k))
     \<and> (k < length segments \<longrightarrow>
          snd (segmentStartTimes segments ?durs)
            = snd (segmentStartTimes segments (?durs[k := 0])) + 1 / 44100)
     \<and> (\<forall>j buf. j < length segmentsAudio \<and> decode (segmentsAudio ! j) = Some buf \<longrightarrow>
          decodeSpeech decode segmentsAudio ! j = buf
          \<and> srcBuffer (ctxSources (mixAudio decode segmentsAudio segments sfxList) ! j) = buf)"
    using slot dur succ total others by blast
qed

theorem decode_failure_placeholder_witness:
  "(1::nat) < length [''mono'', ''corrupt'', ''stereo''] \<and> exDecode ''corrupt'' = None
   \<and> exDecode ''stereo'' = Some stereoClip
   \<and> decodeSpeech exDecode [''mono'', ''corrupt'', ''stereo''] ! 1 = createBuffer 1 1 44100
   \<and> decodeSpeech exDecode [''mono'', ''corrupt'', ''stereo''] ! 2 = stereoClip
   \<and> fst (segmentStartTimes [nar, nar, dlg]
            (map duration (decodeSpeech exDecode [''mono'', ''corrupt'', ''stereo'']))) ! 2
       = fst (segmentStartTimes [nar, nar, dlg]
            (map duration (decodeSpeech exDecode [''mono'', ''corrupt'', ''stereo'']))) ! 1
           + 1 / 44100 + 22 / 100
   \<and> snd (segmentStartTimes [nar, nar, dlg]
            (map duration (decodeSpeech exDecode [''mono'', ''corrupt'', ''stereo''])))
       = snd (segmentStartTimes [nar, nar, dlg]
            ((map duration (decodeSpeech exDecode [''mono'', ''corrupt'', ''stereo'']))[1 := 0]))
           + 1 / 44100"
proof -
  have d: "exDecode ([''mono'', ''corrupt'', ''stereo''] ! 1) = None"
    "exDecode ([''mono'', ''corrupt'', ''stereo''] ! 2) = Some stereoClip"
    "exDecode ''corrupt'' = None" "exDecode ''stereo'' = Some stereoClip"
    by (simp_all add: exDecode_def)
  have g: "segmentGap ([nar, nar, dlg] ! 1) ([nar, nar, dlg] ! Suc 1) = 22 / 100"
    by (simp add: segmentGap_def nar_def dlg_def GAP_NAR_TO_DLG_def)
  note t = decode_failure_placeholder [of 1 "[''mono'', ''corrupt'', ''stereo'']" exDecode
      "[nar, nar, dlg]" "[]"]
  have a: "decodeSpeech exDecode [''mono'', ''corrupt'', ''stereo''] ! 1 = createBuffer 1 1 44100"
    using t d(1) by simp
  have b: "decodeSpeech exDecode [''mono'', ''corrupt'', ''stereo''] ! 2 = stereoClip"
    using t d(1) d(2) by simp
  have c: "fst (segmentStartTimes [nar, nar, dlg]
            (map duration (decodeSpeech exDecode [''mono'', ''corrupt'', ''stereo'']))) ! Suc 1
       = fst (segmentStartTimes [nar, nar, dlg]
            (map duration (decodeSpeech exDecode [''mono'', ''corrupt'', ''stereo'']))) ! 1
           + 1 / 44100 + segmentGap ([nar, nar, dlg] ! 1) ([nar, nar, dlg] ! Suc 1)"
    using t d(1) by simp
  have e: "snd (segmentStartTimes [nar, nar, dlg]
            (map duration (decodeSpeech exDecode [''mono'', ''corrupt'', ''stereo''])))
       = snd (segmentStartTimes [nar, nar, dlg]
            ((map duration (decodeSpeech exDecode [''mono'', ''corrupt'', ''stereo'']))[1 := 0]))
           + 1 / 44100"
    using t d(1) by simp
  show ?thesis
    using a b c e d(3,4) unfolding g by (simp add: numeral_2_eq_2)
qed

section \<open>Properties of the effect gain\<close>

lemma peakOfData_range:
  "(\<exists>r. peak = Num r \<and> 0 \<le> r) \<or> peak = PInf \<Longrightarrow>
   (\<exists>r. peakOfData data peak = Num r \<and> 0 \<le> r) \<or> peakOfData data peak = PInf"
proof (induction data arbitrary: peak)
  case Nil
  then show ?case by simp
next
  case (Cons x data)
  have "(\<exists>r. (if js_gt (Math_abs x) peak then Math_abs x else peak) = Num r \<and> 0 \<le> r)
        \<or> (if js_gt (Math_abs x) peak then Math_abs x else peak) = PInf"
    using Cons.prems by (cases x) (auto simp: js_gt_def)
  then show ?case using Cons.IH by simp
qed

lemma peakOfChannels_range:
  "(\<exists>r. peak = Num r \<and> 0 \<le> r) \<or> peak = PInf \<Longrightarrow>
   (\<exists>r. peakOfChannels chans peak = Num r \<and> 0 \<le> r) \<or> peakOfChannels chans peak = PInf"
proof (induction chans arbitrary: peak)
  case Nil
  then show ?case by simp
next
  case (Cons data chans)
  then show ?case using peakOfData_range [of peak data] by simp
qed

lemma peakOf_range: "(\<exists>r. peakOf buf = Num r \<and> 0 \<le> r) \<or> peakOf buf = PInf"
  unfolding peakOf_def by (rule peakOfChannels_range) simp

lemma peakOfData_silent:
  "\<forall>x\<in>set data. x = Num 0 \<Longrightarrow> peakOfData data (Num 0) = Num 0"
  by (induction data) (simp_all add: js_gt_def)

lemma peakOfChannels_silent:
  "\<forall>data\<in>set chans. \<forall>x\<in>set data. x = Num 0 \<Longrightarrow> peakOfChannels chans (Num 0) = Num 0"
  by (induction chans) (simp_all add: peakOfData_silent)

lemma sfxGain_cases:
  "peakOf buf = Num p \<Longrightarrow> 0 < p \<Longrightarrow> sfxGain buf = Num (TARGET_PEAK / p)"
  "peakOf buf = Num 0 \<Longrightarrow> sfxGain buf = Num TARGET_PEAK"
  "peakOf buf = PInf \<Longrightarrow> sfxGain buf = Num 0"
  by (simp_all add: sfxGain_def js_gt_def)

lemma sfxGain_finite: "\<exists>g. sfxGain buf = Num g \<and> 0 \<le> g"
proof -
  consider r where "peakOf buf = Num r" "0 < r" | "peakOf buf = Num 0" | "peakOf buf = PInf"
    using peakOf_range [of buf] by (auto simp: less_le)
  then show ?thesis
  proof cases
    case 1
    then show ?thesis by (simp add: sfxGain_cases TARGET_PEAK_def)
  next
    case 2
    then show ?thesis by (simp add: sfxGain_cases(2) TARGET_PEAK_def del: divide_eq_eq_numeral1)
  next
    case 3
    then show ?thesis by (simp add: sfxGain_cases)
  qed
qed

text \<open>
  Claim C8. For every effect clip the gain is a finite number, never NaN and never
  infinite: it is \<open>TARGET_PEAK / peak\<close> where the peak is a positive finite number, the
  fallback \<open>TARGET_PEAK = 0.6\<close> where the peak is 0, as for a clip whose samples are all 0,
  and 0 where the peak is infinite. The peak itself is never NaN and never negative, and a
  division is only taken with a peak above 0.
\<close>

theorem sfx_gain_defined:
  "(\<exists>g. sfxGain buf = Num g \<and> 0 \<le> g)
   \<and> sfxGain buf \<noteq> NaN \<and> sfxGain buf \<noteq> PInf \<and> sfxGain buf \<noteq> NInf
   \<and> (\<forall>p. peakOf buf = Num p \<and> 0 < p \<longrightarrow> sfxGain buf = Num (TARGET_PEAK / p))
   \<and> (peakOf buf = Num 0 \<longrightarrow> sfxGain buf = Num TARGET_PEAK)
   \<and> ((\<forall>data\<in>set (channelData buf). \<forall>x\<in>set data. x = Num 0) \<longrightarrow>
        peakOf buf = Num 0 \<and> sfxGain buf = Num TARGET_PEAK)
   \<and> TARGET_PEAK = 6 / 10
   \<and> ((\<exists>r. peakOf buf = Num r \<and> 0 \<le> r) \<or> peakOf buf = PInf)
   \<and> (js_gt (peakOf buf) (Num 0) \<longrightarrow> peakOf buf \<noteq> Num 0)"
proof -
  obtain g where g: "sfxGain buf = Num g" "0 \<le> g" using sfxGain_finite by blast
  have silent: "peakOf buf = Num 0 \<and> sfxGain buf = Num TARGET_PEAK"
    if "\<forall>data\<in>set (channelData buf). \<forall>x\<in>set data. x = Num 0"
    using peakOfChannels_silent [OF that] by (simp add: peakOf_def sfxGain_cases)
  show ?thesis
    using g silent peakOf_range [of buf]
    by (auto simp: sfxGain_cases TARGET_PEAK_def js_gt_def)
qed

theorem sfx_gain_defined_witness:
  "peakOf monoClip = Num (1 / 2) \<and> (0::real) < 1 / 2
   \<and> sfxGain monoClip = Num (12 / 10)
   \<and> peakOf (createBuffer 1 1 44100) = Num 0
   \<and> sfxGain (createBuffer 1 1 44100) = Num (6 / 10)"
proof -
  have p: "peakOf monoClip = Num (1 / 2)"
    by (simp add: peakOf_def monoClip_def js_gt_def)
  have z: "\<forall>data\<in>set (channelData (createBuffer 1 1 44100)). \<forall>x\<in>set data. x = Num 0"
    by (simp add: createBuffer_def)
  have "peakOf monoClip = Num (1 / 2) \<and> (0::real) < 1 / 2 \<longrightarrow>
          sfxGain monoClip = Num (TARGET_PEAK / (1 / 2))"
    using sfx_gain_defined [of monoClip] by blast
  then have "sfxGain monoClip = Num (TARGET_PEAK / (1 / 2))"
    using p by simp
  moreover have "TARGET_PEAK = 6 / 10"
    using sfx_gain_defined [of monoClip] by simp
  moreover have "peakOf (createBuffer 1 1 44100) = Num 0
      \<and> sfxGain (createBuffer 1 1 44100) = Num TARGET_PEAK"
    using sfx_gain_defined [of "createBuffer 1 1 44100"] z by blast
  ultimately show ?thesis using p by simp
qed

section \<open>Properties of the container encoder\<close>

lemma thenE_Inr: "thenE (Inr x) f = f x"
  by (simp add: thenE_def)

lemma length_le16: "length (le16 w) = 2"
  by (simp add: le16_def)

lemma length_le32: "length (le32 w) = 4"
  by (simp add: le32_def)

lemma setBytes_at:
  "length bs \<le> m \<Longrightarrow>
   setBytes (pre @ replicate m z) (length pre) bs = Inr ((pre @ bs) @ replicate (m - length bs) z)"
  by (simp add: setBytes_def)

lemma writeString_at:
  "length str \<le> m \<Longrightarrow>
   writeString (pre @ replicate m z) (length pre) str
     = Inr ((pre @ map of_char str) @ replicate (m - length str) z)"
proof (induction str arbitrary: pre m)
  case Nil
  then show ?case by simp
next
  case (Cons c str)
  then obtain m' where m: "m = Suc m'" by (cases m) simp_all
  have "setUint8 (pre @ replicate m z) (length pre) (of_char c)
          = Inr ((pre @ [of_char c]) @ replicate m' z)"
    using setBytes_at [of "[of_char c]" m pre z] m by (simp add: setUint8_def)
  moreover have "writeString ((pre @ [of_char c]) @ replicate m' z) (length (pre @ [of_char c])) str
          = Inr (((pre @ [of_char c]) @ map of_char str) @ replicate (m' - length str) z)"
    using Cons.prems m by (intro Cons.IH) simp
  ultimately show ?case using m by (simp add: thenE_Inr)
qed

lemma channelLoop_step:
  "ch < numberOfChannels buf \<Longrightarrow>
   channelLoop buf f ch (v, off) =
     (case setInt16 v off (scaleSample (sampleAt buf ch f)) of
        Inl e \<Rightarrow> Inl e
      | Inr v1 \<Rightarrow> channelLoop buf f (ch + 1) (v1, off + 2))"
  by (subst channelLoop.simps) (simp cong: sum.case_cong)

lemma channelLoop_stop:
  "\<not> ch < numberOfChannels buf \<Longrightarrow> channelLoop buf f ch (v, off) = Inr (v, off)"
  by (subst channelLoop.simps) simp

lemma frameLoop_step:
  "f < lengthFrames buf \<Longrightarrow>
   frameLoop buf f (v, off) =
     (case channelLoop buf f 0 (v, off) of
        Inl e \<Rightarrow> Inl e
      | Inr st \<Rightarrow> frameLoop buf (f + 1) st)"
  by (subst frameLoop.simps) (simp cong: sum.case_cong)

lemma frameLoop_stop:
  "\<not> f < lengthFrames buf \<Longrightarrow> frameLoop buf f (v, off) = Inr (v, off)"
  by (subst frameLoop.simps) simp

lemma channelLoop_writes:
  "ch \<le> numberOfChannels buf \<Longrightarrow> 2 * (numberOfChannels buf - ch) \<le> m \<Longrightarrow>
   channelLoop buf f ch (pre @ replicate m z, length pre) =
     Inr ((pre @ concat (map (\<lambda>c. le16 (toInt16 (scaleSample (sampleAt buf c f))))
                          [ch..<numberOfChannels buf]))
            @ replicate (m - 2 * (numberOfChannels buf - ch)) z,
          length pre + 2 * (numberOfChannels buf - ch))"
proof (induction "numberOfChannels buf - ch" arbitrary: ch pre m)
  case 0
  then show ?case by (simp add: channelLoop_stop)
next
  case (Suc d)
  then have lt: "ch < numberOfChannels buf" and d: "d = numberOfChannels buf - Suc ch"
    by simp_all
  let ?bs = "le16 (toInt16 (scaleSample (sampleAt buf ch f)))"
  have m: "2 \<le> m" "2 * (numberOfChannels buf - Suc ch) \<le> m - 2"
    using Suc.prems lt by simp_all
  have w: "setInt16 (pre @ replicate m z) (length pre) (scaleSample (sampleAt buf ch f))
          = Inr ((pre @ ?bs) @ replicate (m - 2) z)"
    using setBytes_at [of ?bs m pre z] m by (simp add: setInt16_def length_le16)
  have r: "channelLoop buf f (Suc ch) ((pre @ ?bs) @ replicate (m - 2) z, length (pre @ ?bs)) =
     Inr (((pre @ ?bs) @ concat (map (\<lambda>c. le16 (toInt16 (scaleSample (sampleAt buf c f))))
                          [Suc ch..<numberOfChannels buf]))
            @ replicate (m - 2 - 2 * (numberOfChannels buf - Suc ch)) z,
          length (pre @ ?bs) + 2 * (numberOfChannels buf - Suc ch))"
    using lt m by (intro Suc.hyps(1) [OF d]) simp_all
  have e: "m - 2 - 2 * (numberOfChannels buf - Suc ch) = m - 2 * (numberOfChannels buf - ch)"
    "length pre + 2 + 2 * (numberOfChannels buf - Suc ch) = length pre + 2 * (numberOfChannels buf - ch)"
    using lt by simp_all
  show ?case
    using r e by (simp add: channelLoop_step [OF lt] w upt_conv_Cons [OF lt] length_le16)
qed

lemma length_frameBytes: "length (frameBytes buf f) = 2 * numberOfChannels buf"
  by (simp add: frameBytes_def length_concat comp_def length_le16 sum_list_triv)

lemma frameLoop_writes:
  "f \<le> lengthFrames buf \<Longrightarrow> 2 * numberOfChannels buf * (lengthFrames buf - f) \<le> m \<Longrightarrow>
   frameLoop buf f (pre @ replicate m z, length pre) =
     Inr ((pre @ concat (map (frameBytes buf) [f..<lengthFrames buf]))
            @ replicate (m - 2 * numberOfChannels buf * (lengthFrames buf - f)) z,
          length pre + 2 * numberOfChannels buf * (lengthFrames buf - f))"
proof (induction "lengthFrames buf - f" arbitrary: f pre m)
  case 0
  then show ?case by (simp add: frameLoop_stop)
next
  case (Suc d)
  then have lt: "f < lengthFrames buf" and d: "d = lengthFrames buf - Suc f"
    by simp_all
  let ?C = "numberOfChannels buf"
  have "lengthFrames buf - f = Suc (lengthFrames buf - Suc f)"
    using lt by simp
  then have split: "2 * ?C * (lengthFrames buf - f) = 2 * ?C + 2 * ?C * (lengthFrames buf - Suc f)"
    by (simp only: mult_Suc_right)
  have m: "2 * ?C \<le> m" "2 * ?C * (lengthFrames buf - Suc f) \<le> m - 2 * ?C"
    using Suc.prems(2) split by simp_all
  have c: "channelLoop buf f 0 (pre @ replicate m z, length pre) =
     Inr ((pre @ frameBytes buf f) @ replicate (m - 2 * ?C) z, length pre + 2 * ?C)"
    using channelLoop_writes [of 0 buf m f pre z] m by (simp add: frameBytes_def)
  have r: "frameLoop buf (Suc f) ((pre @ frameBytes buf f) @ replicate (m - 2 * ?C) z,
             length (pre @ frameBytes buf f)) =
     Inr (((pre @ frameBytes buf f) @ concat (map (frameBytes buf) [Suc f..<lengthFrames buf]))
            @ replicate (m - 2 * ?C - 2 * ?C * (lengthFrames buf - Suc f)) z,
          length (pre @ frameBytes buf f) + 2 * ?C * (lengthFrames buf - Suc f))"
    using lt m by (intro Suc.hyps(1) [OF d]) simp_all
  have e: "m - 2 * ?C - 2 * ?C * (lengthFrames buf - Suc f) = m - 2 * ?C * (lengthFrames buf - f)"
    "length pre + 2 * ?C + 2 * ?C * (lengthFrames buf - Suc f)
       = length pre + 2 * ?C * (lengthFrames buf - f)"
    using split by simp_all
  show ?case
    using r e
    by (simp add: frameLoop_step [OF lt] c upt_conv_Cons [OF lt] length_frameBytes)
qed

lemma length_sampleBytes:
  "length (sampleBytes buf) = lengthFrames buf * numberOfChannels buf * 2"
  by (simp add: sampleBytes_def length_concat comp_def length_frameBytes sum_list_triv)


lemma setUint32_at:
  "length pre = off \<Longrightarrow> 4 \<le> m \<Longrightarrow>
   setUint32 (pre @ replicate m z) off x = Inr ((pre @ le32 (toUint32 x)) @ replicate (m - 4) z)"
  using setBytes_at [of "le32 (toUint32 x)" m pre z] by (auto simp: setUint32_def length_le32)

lemma setUint16_at:
  "length pre = off \<Longrightarrow> 2 \<le> m \<Longrightarrow>
   setUint16 (pre @ replicate m z) off x = Inr ((pre @ le16 (toUint16 x)) @ replicate (m - 2) z)"
  using setBytes_at [of "le16 (toUint16 x)" m pre z] by (auto simp: setUint16_def length_le16)

lemma writeString_at':
  "length pre = off \<Longrightarrow> length str \<le> m \<Longrightarrow>
   writeString (pre @ replicate m z) off str
     = Inr ((pre @ map of_char str) @ replicate (m - length str) z)"
  using writeString_at [of str m pre z] by auto

lemma length_wavHeader: "length (wavHeader numCh sr dataSize) = 44"
  by (simp add: wavHeader_def length_le16 length_le32)

lemma header_writes:
  "thenE (writeString (replicate (44 + n) (0 :: byte)) 0 ''RIFF'') (\<lambda>v.
         thenE (setUint32 v 4 (real (36 + n))) (\<lambda>v.
         thenE (writeString v 8 ''WAVE'') (\<lambda>v.
         thenE (writeString v 12 ''fmt '') (\<lambda>v.
         thenE (setUint32 v 16 16) (\<lambda>v.
         thenE (setUint16 v 20 1) (\<lambda>v.
         thenE (setUint16 v 22 (real numCh)) (\<lambda>v.
         thenE (setUint32 v 24 sr) (\<lambda>v.
         thenE (setUint32 v 28 (sr * real numCh * 2)) (\<lambda>v.
         thenE (setUint16 v 32 (real (numCh * 2))) (\<lambda>v.
         thenE (setUint16 v 34 16) (\<lambda>v.
         thenE (writeString v 36 ''data'') (\<lambda>v.
         thenE (setUint32 v 40 (real n)) k))))))))))))
   = k (wavHeader numCh sr n @ replicate n 0)"
proof -
  let ?c1 = "map of_char ''RIFF''"
  let ?c2 = "le32 (toUint32 (real (36 + n)))"
  let ?c3 = "map of_char ''WAVE''"
  let ?c4 = "map of_char ''fmt ''"
  let ?c5 = "le32 (toUint32 (16))"
  let ?c6 = "le16 (toUint16 (1))"
  let ?c7 = "le16 (toUint16 (real numCh))"
  let ?c8 = "le32 (toUint32 (sr))"
  let ?c9 = "le32 (toUint32 (sr * real numCh * 2))"
  let ?c10 = "le16 (toUint16 (real (numCh * 2)))"
  let ?c11 = "le16 (toUint16 (16))"
  let ?c12 = "map of_char ''data''"
  let ?c13 = "le32 (toUint32 (real n))"
  let ?P1 = "?c1"
  let ?P2 = "?c1 @ ?c2"
  let ?P3 = "?c1 @ ?c2 @ ?c3"
  let ?P4 = "?c1 @ ?c2 @ ?c3 @ ?c4"
  let ?P5 = "?c1 @ ?c2 @ ?c3 @ ?c4 @ ?c5"
  let ?P6 = "?c1 @ ?c2 @ ?c3 @ ?c4 @ ?c5 @ ?c6"
  let ?P7 = "?c1 @ ?c2 @ ?c3 @ ?c4 @ ?c5 @ ?c6 @ ?c7"
  let ?P8 = "?c1 @ ?c2 @ ?c3 @ ?c4 @ ?c5 @ ?c6 @ ?c7 @ ?c8"
  let ?P9 = "?c1 @ ?c2 @ ?c3 @ ?c4 @ ?c5 @ ?c6 @ ?c7 @ ?c8 @ ?c9"
  let ?P10 = "?c1 @ ?c2 @ ?c3 @ ?c4 @ ?c5 @ ?c6 @ ?c7 @ ?c8 @ ?c9 @ ?c10"
  let ?P11 = "?c1 @ ?c2 @ ?c3 @ ?c4 @ ?c5 @ ?c6 @ ?c7 @ ?c8 @ ?c9 @ ?c10 @ ?c11"
  let ?P12 = "?c1 @ ?c2 @ ?c3 @ ?c4 @ ?c5 @ ?c6 @ ?c7 @ ?c8 @ ?c9 @ ?c10 @ ?c11 @ ?c12"
  let ?P13 = "?c1 @ ?c2 @ ?c3 @ ?c4 @ ?c5 @ ?c6 @ ?c7 @ ?c8 @ ?c9 @ ?c10 @ ?c11 @ ?c12 @ ?c13"
  have s1: "writeString (replicate (44 + n) (0 :: byte)) 0 ''RIFF'' = Inr (?P1 @ replicate (40 + n) 0)"
    using writeString_at [of "''RIFF''" "44 + n" "[]" "0 :: byte"] by simp
  have s2: "setUint32 (?P1 @ replicate (40 + n) 0) 4 (real (36 + n)) = Inr (?P2 @ replicate (36 + n) 0)"
    using setUint32_at [of "?P1" 4 "40 + n" "0 :: byte" "real (36 + n)"] by (simp add: length_le16 length_le32)
  have s3: "writeString (?P2 @ replicate (36 + n) 0) 8 ''WAVE'' = Inr (?P3 @ replicate (32 + n) 0)"
    using writeString_at' [of "?P2" 8 "''WAVE''" "36 + n" "0 :: byte"] by (simp add: length_le16 length_le32)
  have s4: "writeString (?P3 @ replicate (32 + n) 0) 12 ''fmt '' = Inr (?P4 @ replicate (28 + n) 0)"
    using writeString_at' [of "?P3" 12 "''fmt ''" "32 + n" "0 :: byte"] by (simp add: length_le16 length_le32)
  have s5: "setUint32 (?P4 @ replicate (28 + n) 0) 16 (16) = Inr (?P5 @ replicate (24 + n) 0)"
    using setUint32_at [of "?P4" 16 "28 + n" "0 :: byte" "16"] by (simp add: length_le16 length_le32)
  have s6: "setUint16 (?P5 @ replicate (24 + n) 0) 20 (1) = Inr (?P6 @ replicate (22 + n) 0)"
    using setUint16_at [of "?P5" 20 "24 + n" "0 :: byte" "1"] by (simp add: length_le16 length_le32)
  have s7: "setUint16 (?P6 @ replicate (22 + n) 0) 22 (real numCh) = Inr (?P7 @ replicate (20 + n) 0)"
    using setUint16_at [of "?P6" 22 "22 + n" "0 :: byte" "real numCh"] by (simp add: length_le16 length_le32)
  have s8: "setUint32 (?P7 @ replicate (20 + n) 0) 24 (sr) = Inr (?P8 @ replicate (16 + n) 0)"
    using setUint32_at [of "?P7" 24 "20 + n" "0 :: byte" "sr"] by (simp add: length_le16 length_le32)
  have s9: "setUint32 (?P8 @ replicate (16 + n) 0) 28 (sr * real numCh * 2) = Inr (?P9 @ replicate (12 + n) 0)"
    using setUint32_at [of "?P8" 28 "16 + n" "0 :: byte" "sr * real numCh * 2"] by (simp add: length_le16 length_le32)
  have s10: "setUint16 (?P9 @ replicate (12 + n) 0) 32 (real (numCh * 2)) = Inr (?P10 @ replicate (10 + n) 0)"
    using setUint16_at [of "?P9" 32 "12 + n" "0 :: byte" "real (numCh * 2)"] by (simp add: length_le16 length_le32)
  have s11: "setUint16 (?P10 @ replicate (10 + n) 0) 34 (16) = Inr (?P11 @ replicate (8 + n) 0)"
    using setUint16_at [of "?P10" 34 "10 + n" "0 :: byte" "16"] by (simp add: length_le16 length_le32)
  have s12: "writeString (?P11 @ replicate (8 + n) 0) 36 ''data'' = Inr (?P12 @ replicate (4 + n) 0)"
    using writeString_at' [of "?P11" 36 "''data''" "8 + n" "0 :: byte"] by (simp add: length_le16 length_le32)
  have s13: "setUint32 (?P12 @ replicate (4 + n) 0) 40 (real n) = Inr (?P13 @ replicate (n) 0)"
    using setUint32_at [of "?P12" 40 "4 + n" "0 :: byte" "real n"] by (simp add: length_le16 length_le32)
  have P: "?P13 = wavHeader numCh sr n"
    by (simp add: wavHeader_def)
  show ?thesis
    by (simp only: s1 s2 s3 s4 s5 s6 s7 s8 s9 s10 s11 s12 s13 thenE_Inr P)
qed


lemma audioBufferToWav_layout:
  "audioBufferToWav buf =
     Inr (wavHeader (numberOfChannels buf) (sampleRate buf)
            (lengthFrames buf * numberOfChannels buf * 2) @ sampleBytes buf)"
proof -
  let ?n = "lengthFrames buf * numberOfChannels buf * 2"
  let ?H = "wavHeader (numberOfChannels buf) (sampleRate buf) ?n"
  have n: "2 * numberOfChannels buf * (lengthFrames buf - 0) = ?n"
    by simp
  have "frameLoop buf 0 (?H @ replicate ?n 0, length ?H) =
     Inr ((?H @ concat (map (frameBytes buf) [0..<lengthFrames buf]))
            @ replicate (?n - 2 * numberOfChannels buf * (lengthFrames buf - 0)) 0,
          length ?H + 2 * numberOfChannels buf * (lengthFrames buf - 0))"
    by (rule frameLoop_writes) simp_all
  then have fl: "frameLoop buf 0 (?H @ replicate ?n 0, 44) = Inr (?H @ sampleBytes buf, 44 + ?n)"
    unfolding n by (simp add: length_wavHeader sampleBytes_def)
  show ?thesis
    unfolding audioBufferToWav_def Let_def
    by (simp only: header_writes fl thenE_Inr prod.case)
qed

lemma take_drop_block:
  "\<forall>x\<in>set xs. length (g x) = n \<Longrightarrow> i < length xs \<Longrightarrow>
   take n (drop (i * n) (concat (map g xs))) = g (xs ! i)"
proof (induction xs arbitrary: i)
  case Nil
  then show ?case by simp
next
  case (Cons x xs)
  show ?case
  proof (cases i)
    case 0
    then show ?thesis using Cons.prems by simp
  next
    case (Suc j)
    then have "take n (drop (j * n) (concat (map g xs))) = g (xs ! j)"
      using Cons.prems by (intro Cons.IH) simp_all
    then show ?thesis using Suc Cons.prems by simp
  qed
qed

lemma take_drop_within:
  "a + b \<le> c \<Longrightarrow> take a (drop b (take c xs)) = take a (drop b xs)"
  by (simp add: drop_take min_def)

lemma frame_position:
  "f < lengthFrames buf \<Longrightarrow>
   take (2 * numberOfChannels buf) (drop (f * (2 * numberOfChannels buf)) (sampleBytes buf))
     = frameBytes buf f"
  using take_drop_block [of "[0..<lengthFrames buf]" "frameBytes buf" "2 * numberOfChannels buf" f]
  by (simp add: sampleBytes_def length_frameBytes)

lemma channel_position:
  "ch < numberOfChannels buf \<Longrightarrow>
   take 2 (drop (ch * 2) (frameBytes buf f)) = le16 (toInt16 (scaleSample (sampleAt buf ch f)))"
  using take_drop_block [of "[0..<numberOfChannels buf]"
      "\<lambda>c. le16 (toInt16 (scaleSample (sampleAt buf c f)))" 2 ch]
  by (simp add: frameBytes_def length_le16)

lemma sample_position:
  assumes "f < lengthFrames buf" "ch < numberOfChannels buf"
  shows "take 2 (drop (2 * (f * numberOfChannels buf + ch)) (sampleBytes buf))
           = le16 (toInt16 (scaleSample (sampleAt buf ch f)))"
proof -
  let ?C = "numberOfChannels buf"
  have "take 2 (drop (2 * (f * ?C + ch)) (sampleBytes buf))
          = take 2 (drop (ch * 2) (drop (f * (2 * ?C)) (sampleBytes buf)))"
    by (simp add: algebra_simps)
  also have "\<dots> = take 2 (drop (ch * 2) (take (2 * ?C) (drop (f * (2 * ?C)) (sampleBytes buf))))"
    using assms(2) by (intro take_drop_within [symmetric]) simp
  also have "\<dots> = take 2 (drop (ch * 2) (frameBytes buf f))"
    by (simp only: frame_position [OF assms(1)])
  also have "\<dots> = le16 (toInt16 (scaleSample (sampleAt buf ch f)))"
    by (rule channel_position [OF assms(2)])
  finally show ?thesis .
qed

lemma scaleSample_Num:
  "scaleSample (Num r) =
     Num (if max (- 1) (min 1 r) < 0 then max (- 1) (min 1 r) * 32768
          else max (- 1) (min 1 r) * 32767)"
  by (simp add: scaleSample_def Let_def min_def max_def)

lemma scaleSample_special:
  "scaleSample PInf = Num 32767" "scaleSample NInf = Num (- 32768)" "scaleSample NaN = NaN"
  by (simp_all add: scaleSample_def)

lemma js_trunc_bounds:
  "real_of_int lo \<le> x \<Longrightarrow> x \<le> real_of_int hi \<Longrightarrow> lo \<le> js_trunc x \<and> js_trunc x \<le> hi"
  unfolding js_trunc_def by (auto simp: le_floor_iff floor_le_iff le_ceiling_iff ceiling_le_iff)


lemma js_trunc_of_nat: "js_trunc (real n) = int n"
  by (simp add: js_trunc_def)

lemma unat_toUint32: "n < 2 ^ 32 \<Longrightarrow> unat (toUint32 (real n)) = n"
  by (simp add: toUint32_def js_trunc_of_nat unat_of_nat)

lemma unat_toUint16: "n < 2 ^ 16 \<Longrightarrow> unat (toUint16 (real n)) = n"
  by (simp add: toUint16_def js_trunc_of_nat unat_of_nat)

lemma scaled_range:
  fixes r :: real
  defines "c \<equiv> max (- 1) (min 1 r)"
  shows "- 32768 \<le> js_trunc (if c < 0 then c * 32768 else c * 32767)
         \<and> js_trunc (if c < 0 then c * 32768 else c * 32767) \<le> 32767"
proof -
  have c: "- 1 \<le> c" "c \<le> 1" by (simp_all add: c_def)
  have "real_of_int (- 32768) \<le> (if c < 0 then c * 32768 else c * 32767)"
    using c by (auto simp: not_less)
  moreover have "(if c < 0 then c * 32768 else c * 32767) \<le> real_of_int 32767"
    using c by auto
  ultimately show ?thesis by (rule js_trunc_bounds)
qed

lemma sint_toInt16:
  "- 32768 \<le> js_trunc x \<Longrightarrow> js_trunc x \<le> 32767 \<Longrightarrow> sint (toInt16 (Num x)) = js_trunc x"
  by (simp add: signed_of_int signed_take_bit_int_eq_self)

lemma sint_scaleSample:
  "sint (toInt16 (scaleSample (Num r))) =
     js_trunc (if max (- 1) (min 1 r) < 0 then max (- 1) (min 1 r) * 32768
               else max (- 1) (min 1 r) * 32767)"
  unfolding scaleSample_Num using scaled_range [of r] by (intro sint_toInt16) simp_all

lemma sampleAt_wf:
  "wfAudioBuffer buf \<Longrightarrow> ch < numberOfChannels buf \<Longrightarrow> f < lengthFrames buf \<Longrightarrow>
   sampleAt buf ch f = channelData buf ! ch ! f"
  by (simp add: wfAudioBuffer_def sampleAt_def numberOfChannels_def list_all_length)


text \<open>
  Claim C5. For a buffer of \<open>L\<close> frames, \<open>C\<close> channels and sample rate \<open>R\<close> the encoder
  returns, without an exception, exactly \<open>44 + L * C * 2\<close> bytes: the 44-byte header of
  \<open>wavHeader\<close> (RIFF size \<open>36 + L * C * 2\<close>, format tag 1, channel count \<open>C\<close>, sample rate
  \<open>R\<close>, byte rate \<open>R * C * 2\<close>, block align \<open>C * 2\<close>, bit depth 16, data size
  \<open>L * C * 2\<close>, each stored little-endian in its 32 or 16 bits and read back as the number
  itself where it fits) followed by the samples, the one of frame \<open>f\<close> and channel \<open>ch\<close> in
  the two bytes at \<open>2 * (f * C + ch)\<close> of the data. A finite sample is clamped to
  \<open>[-1, 1]\<close>, scaled by 32768 below 0 and by 32767 otherwise, and stored as the signed
  16-bit integer that is the scaled value truncated towards zero, which lies between
  -32768 and 32767; an infinite sample is clamped to 1 or -1 likewise, and NaN stores 0.
\<close>

theorem wav_container_layout:
  "audioBufferToWav buf =
     Inr (wavHeader (numberOfChannels buf) (sampleRate buf)
            (lengthFrames buf * numberOfChannels buf * 2) @ sampleBytes buf)
   \<and> length (wavHeader (numberOfChannels buf) (sampleRate buf)
         (lengthFrames buf * numberOfChannels buf * 2)) = 44
   \<and> length (sampleBytes buf) = lengthFrames buf * numberOfChannels buf * 2
   \<and> (\<exists>out. audioBufferToWav buf = Inr out
         \<and> length out = 44 + lengthFrames buf * numberOfChannels buf * 2)
   \<and> (\<forall>n. n < 2 ^ 32 \<longrightarrow> unat (toUint32 (real n)) = n)
   \<and> (\<forall>n. n < 2 ^ 16 \<longrightarrow> unat (toUint16 (real n)) = n)
   \<and> (\<forall>f ch. f < lengthFrames buf \<and> ch < numberOfChannels buf \<longrightarrow>
         take 2 (drop (2 * (f * numberOfChannels buf + ch)) (sampleBytes buf))
           = le16 (toInt16 (scaleSample (sampleAt buf ch f))))
   \<and> (wfAudioBuffer buf \<longrightarrow>
        (\<forall>f ch. f < lengthFrames buf \<and> ch < numberOfChannels buf \<longrightarrow>
           sampleAt buf ch f = channelData buf ! ch ! f))
   \<and> (\<forall>r. scaleSample (Num r) =
          Num (if max (- 1) (min 1 r) < 0 then max (- 1) (min 1 r) * 32768
               else max (- 1) (min 1 r) * 32767)
        \<and> sint (toInt16 (scaleSample (Num r))) =
          js_trunc (if max (- 1) (min 1 r) < 0 then max (- 1) (min 1 r) * 32768
                    else max (- 1) (min 1 r) * 32767)
        \<and> - 32768 \<le> sint (toInt16 (scaleSample (Num r)))
        \<and> sint (toInt16 (scaleSample (Num r))) \<le> 32767)
   \<and> scaleSample PInf = Num 32767 \<and> scaleSample NInf = Num (- 32768)
   \<and> toInt16 (scaleSample NaN) = 0"
proof -
  have out: "\<exists>out. audioBufferToWav buf = Inr out
         \<and> length out = 44 + lengthFrames buf * numberOfChannels buf * 2"
    by (simp add: audioBufferToWav_layout length_wavHeader length_sampleBytes)
  have pos: "\<forall>f ch. f < lengthFrames buf \<and> ch < numberOfChannels buf \<longrightarrow>
         take 2 (drop (2 * (f * numberOfChannels buf + ch)) (sampleBytes buf))
           = le16 (toInt16 (scaleSample (sampleAt buf ch f)))"
    using sample_position by blast
  have wf: "wfAudioBuffer buf \<longrightarrow>
        (\<forall>f ch. f < lengthFrames buf \<and> ch < numberOfChannels buf \<longrightarrow>
           sampleAt buf ch f = channelData buf ! ch ! f)"
    using sampleAt_wf by blast
  have val: "scaleSample (Num r) =
          Num (if max (- 1) (min 1 r) < 0 then max (- 1) (min 1 r) * 32768
               else max (- 1) (min 1 r) * 32767)
        \<and> sint (toInt16 (scaleSample (Num r))) =
          js_trunc (if max (- 1) (min 1 r) < 0 then max (- 1) (min 1 r) * 32768
                    else max (- 1) (min 1 r) * 32767)
        \<and> - 32768 \<le> sint (toInt16 (scaleSample (Num r)))
        \<and> sint (toInt16 (scaleSample (Num r))) \<le> 32767" for r
  proof -
    note b = sint_scaleSample [of r]
    show ?thesis
      using scaleSample_Num [of r] scaled_range [of r] unfolding b by blast
  qed
  have spec: "scaleSample PInf = Num 32767 \<and> scaleSample NInf = Num (- 32768)
      \<and> toInt16 (scaleSample NaN) = 0"
    by (simp add: scaleSample_special)
  show ?thesis
    using audioBufferToWav_layout [of buf] length_wavHeader length_sampleBytes [of buf]
      out unat_toUint32 unat_toUint16 pos wf val spec
    by blast
qed

lemma le_bytes_eval:
  "le32 (toUint32 44) = [44, 0, 0, 0]" "le32 (toUint32 16) = [16, 0, 0, 0]"
  "le32 (toUint32 8) = [8, 0, 0, 0]"
  "le32 (toUint32 48000) = [128, 187, 0, 0]" "le32 (toUint32 192000) = [0, 238, 2, 0]"
  "le16 (toUint16 1) = [1, 0]" "le16 (toUint16 2) = [2, 0]" "le16 (toUint16 4) = [4, 0]"
  "le16 (toUint16 16) = [16, 0]"
  by (simp_all add: le32_def le16_def toUint32_def toUint16_def js_trunc_def)


lemma stereoClip_wf: "wfAudioBuffer stereoClip"
  by (simp add: wfAudioBuffer_def stereoClip_def numberOfChannels_def)

lemma stereoClip_header:
  "wavHeader (numberOfChannels stereoClip) (sampleRate stereoClip)
     (lengthFrames stereoClip * numberOfChannels stereoClip * 2)
   = [82, 73, 70, 70, 44, 0, 0, 0, 87, 65, 86, 69, 102, 109, 116, 32, 16, 0, 0, 0, 1, 0, 2, 0,
      128, 187, 0, 0, 0, 238, 2, 0, 4, 0, 16, 0, 100, 97, 116, 97, 8, 0, 0, 0]"
  by (simp add: wavHeader_def stereoClip_def numberOfChannels_def le_bytes_eval)

lemma stereoClip_samples:
  "sampleBytes stereoClip = [255, 63, 0, 0, 0, 224, 255, 31]"
  by (simp add: sampleBytes_def frameBytes_def stereoClip_def numberOfChannels_def sampleAt_def
      scaleSample_def upt_conv_Cons le16_def js_trunc_def)

theorem wav_container_layout_witness:
  "wfAudioBuffer stereoClip
   \<and> (0::nat) < lengthFrames stereoClip \<and> (1::nat) < numberOfChannels stereoClip
   \<and> audioBufferToWav stereoClip =
       Inr [82, 73, 70, 70, 44, 0, 0, 0, 87, 65, 86, 69, 102, 109, 116, 32, 16, 0, 0, 0, 1, 0, 2, 0,
            128, 187, 0, 0, 0, 238, 2, 0, 4, 0, 16, 0, 100, 97, 116, 97, 8, 0, 0, 0,
            255, 63, 0, 0, 0, 224, 255, 31]
   \<and> sampleAt stereoClip 1 0 = Num 0
   \<and> take 2 (drop (2 * (0 * numberOfChannels stereoClip + 1)) (sampleBytes stereoClip)) = [0, 0]
   \<and> (44::nat) < 2 ^ 32 \<and> unat (toUint32 (real 44)) = 44
   \<and> sint (toInt16 (scaleSample (Num (1 / 2)))) = 16383"
proof -
  note t = wav_container_layout [of stereoClip]
  have b: "(0::nat) < lengthFrames stereoClip" "(1::nat) < numberOfChannels stereoClip"
    by (simp_all add: stereoClip_def numberOfChannels_def)
  have enc: "audioBufferToWav stereoClip =
     Inr (wavHeader (numberOfChannels stereoClip) (sampleRate stereoClip)
            (lengthFrames stereoClip * numberOfChannels stereoClip * 2) @ sampleBytes stereoClip)"
    using t by blast
  have "sampleAt stereoClip 1 0 = channelData stereoClip ! 1 ! 0"
    using t stereoClip_wf b by blast
  then have smp: "sampleAt stereoClip 1 0 = Num 0"
    by (simp add: stereoClip_def)
  have "take 2 (drop (2 * (0 * numberOfChannels stereoClip + 1)) (sampleBytes stereoClip))
          = le16 (toInt16 (scaleSample (sampleAt stereoClip 1 0)))"
    using t b by blast
  then have "take 2 (drop (2 * (0 * numberOfChannels stereoClip + 1)) (sampleBytes stereoClip))
          = le16 (toInt16 (scaleSample (Num 0)))"
    by (simp only: smp)
  then have pos: "take 2 (drop (2 * (0 * numberOfChannels stereoClip + 1)) (sampleBytes stereoClip))
          = [0, 0]"
    by (simp add: scaleSample_def le16_def js_trunc_def)
  have "(44::nat) < 2 ^ 32 \<longrightarrow> unat (toUint32 (real 44)) = 44"
    using t by blast
  then have fld: "unat (toUint32 (real 44)) = 44" by simp
  have "sint (toInt16 (scaleSample (Num (1 / 2)))) =
          js_trunc (if max (- 1) (min 1 (1 / 2 :: real)) < 0 then max (- 1) (min 1 (1 / 2)) * 32768
                    else max (- 1) (min 1 (1 / 2)) * 32767)"
    using t by blast
  then have val: "sint (toInt16 (scaleSample (Num (1 / 2)))) = 16383"
    by (simp add: js_trunc_def)
  show ?thesis
    using stereoClip_wf b smp pos fld val
    by (simp add: enc stereoClip_header stereoClip_samples)
qed

section \<open>The server's container for music: layout\<close>

lemma toUint_of_nat:
  "toUint32 (real n) = word_of_nat n" "toUint16 (real n) = word_of_nat n"
  by (simp_all add: toUint32_def toUint16_def js_trunc_of_nat)

lemma bufferWrite_at:
  "length pre = off \<Longrightarrow> length str \<le> m \<Longrightarrow>
   bufferWrite (pre @ replicate m z) str off = (pre @ map of_char str) @ replicate (m - length str) z"
  by (simp add: bufferWrite_def)

lemma writeUInt32LE_at:
  "val < 2 ^ 32 \<Longrightarrow> length pre = off \<Longrightarrow> 4 \<le> m \<Longrightarrow>
   writeUInt32LE (pre @ replicate m z) val off
     = Inr ((pre @ le32 (toUint32 (real val))) @ replicate (m - 4) z)"
  using setBytes_at [of "le32 (word_of_nat val)" m pre z]
  by (auto simp: writeUInt32LE_def toUint_of_nat length_le32)

lemma writeUInt16LE_at:
  "val < 2 ^ 16 \<Longrightarrow> length pre = off \<Longrightarrow> 2 \<le> m \<Longrightarrow>
   writeUInt16LE (pre @ replicate m z) val off
     = Inr ((pre @ le16 (toUint16 (real val))) @ replicate (m - 2) z)"
  using setBytes_at [of "le16 (word_of_nat val)" m pre z]
  by (auto simp: writeUInt16LE_def toUint_of_nat length_le16)

lemma pcmToWav_layout:
  assumes "36 + length pcm < 2 ^ 32" "channels * 2 < 2 ^ 16" "rate < 2 ^ 32"
    and "rate * channels * 2 < 2 ^ 32"
  shows "pcmToWav pcm channels rate
           = Inr (wavHeader channels (real rate) (length pcm) @ pcm)"
proof -
  define n where "n = length pcm"
  have r: "36 + n < 2 ^ 32" "n < 2 ^ 32" "channels < 2 ^ 16" "rate < 2 ^ 32"
    "channels * 2 < 2 ^ 16" "rate * channels * 2 < 2 ^ 32"
    using assms by (simp_all add: n_def)
  have rs: "real rate * real channels * 2 = real (rate * channels * 2)"
    by simp
  let ?c1 = "map of_char ''RIFF''"
  let ?c2 = "le32 (toUint32 (real (36 + n)))"
  let ?c3 = "map of_char ''WAVE''"
  let ?c4 = "map of_char ''fmt ''"
  let ?c5 = "le32 (toUint32 (real (16)))"
  let ?c6 = "le16 (toUint16 (real (1)))"
  let ?c7 = "le16 (toUint16 (real (channels)))"
  let ?c8 = "le32 (toUint32 (real (rate)))"
  let ?c9 = "le32 (toUint32 (real (rate * channels * 2)))"
  let ?c10 = "le16 (toUint16 (real (channels * 2)))"
  let ?c11 = "le16 (toUint16 (real (16)))"
  let ?c12 = "map of_char ''data''"
  let ?c13 = "le32 (toUint32 (real (n)))"
  let ?P1 = "?c1"
  let ?P2 = "?c1 @ ?c2"
  let ?P3 = "?c1 @ ?c2 @ ?c3"
  let ?P4 = "?c1 @ ?c2 @ ?c3 @ ?c4"
  let ?P5 = "?c1 @ ?c2 @ ?c3 @ ?c4 @ ?c5"
  let ?P6 = "?c1 @ ?c2 @ ?c3 @ ?c4 @ ?c5 @ ?c6"
  let ?P7 = "?c1 @ ?c2 @ ?c3 @ ?c4 @ ?c5 @ ?c6 @ ?c7"
  let ?P8 = "?c1 @ ?c2 @ ?c3 @ ?c4 @ ?c5 @ ?c6 @ ?c7 @ ?c8"
  let ?P9 = "?c1 @ ?c2 @ ?c3 @ ?c4 @ ?c5 @ ?c6 @ ?c7 @ ?c8 @ ?c9"
  let ?P10 = "?c1 @ ?c2 @ ?c3 @ ?c4 @ ?c5 @ ?c6 @ ?c7 @ ?c8 @ ?c9 @ ?c10"
  let ?P11 = "?c1 @ ?c2 @ ?c3 @ ?c4 @ ?c5 @ ?c6 @ ?c7 @ ?c8 @ ?c9 @ ?c10 @ ?c11"
  let ?P12 = "?c1 @ ?c2 @ ?c3 @ ?c4 @ ?c5 @ ?c6 @ ?c7 @ ?c8 @ ?c9 @ ?c10 @ ?c11 @ ?c12"
  let ?P13 = "?c1 @ ?c2 @ ?c3 @ ?c4 @ ?c5 @ ?c6 @ ?c7 @ ?c8 @ ?c9 @ ?c10 @ ?c11 @ ?c12 @ ?c13"
  have s1: "bufferWrite (replicate 44 (0 :: byte)) ''RIFF'' 0 = ?P1 @ replicate 40 0"
    using bufferWrite_at [of "[]" 0 "''RIFF''" 44 "0 :: byte"] by simp
  have s2: "writeUInt32LE (?P1 @ replicate 40 0) (36 + n) 4 = Inr (?P2 @ replicate 36 0)"
    using writeUInt32LE_at [of "36 + n" "?P1" 4 40 "0 :: byte"] r by (simp add: length_le16 length_le32)
  have s3: "bufferWrite (?P2 @ replicate 36 0) ''WAVE'' 8 = ?P3 @ replicate 32 0"
    using bufferWrite_at [of "?P2" 8 "''WAVE''" 36 "0 :: byte"] by (simp add: length_le16 length_le32)
  have s4: "bufferWrite (?P3 @ replicate 32 0) ''fmt '' 12 = ?P4 @ replicate 28 0"
    using bufferWrite_at [of "?P3" 12 "''fmt ''" 32 "0 :: byte"] by (simp add: length_le16 length_le32)
  have s5: "writeUInt32LE (?P4 @ replicate 28 0) (16) 16 = Inr (?P5 @ replicate 24 0)"
    using writeUInt32LE_at [of "16" "?P4" 16 28 "0 :: byte"] r by (simp add: length_le16 length_le32)
  have s6: "writeUInt16LE (?P5 @ replicate 24 0) (1) 20 = Inr (?P6 @ replicate 22 0)"
    using writeUInt16LE_at [of "1" "?P5" 20 24 "0 :: byte"] r by (simp add: length_le16 length_le32)
  have s7: "writeUInt16LE (?P6 @ replicate 22 0) (channels) 22 = Inr (?P7 @ replicate 20 0)"
    using writeUInt16LE_at [of "channels" "?P6" 22 22 "0 :: byte"] r by (simp add: length_le16 length_le32)
  have s8: "writeUInt32LE (?P7 @ replicate 20 0) (rate) 24 = Inr (?P8 @ replicate 16 0)"
    using writeUInt32LE_at [of "rate" "?P7" 24 20 "0 :: byte"] r by (simp add: length_le16 length_le32)
  have s9: "writeUInt32LE (?P8 @ replicate 16 0) (rate * channels * 2) 28 = Inr (?P9 @ replicate 12 0)"
    using writeUInt32LE_at [of "rate * channels * 2" "?P8" 28 16 "0 :: byte"] r by (simp add: length_le16 length_le32)
  have s10: "writeUInt16LE (?P9 @ replicate 12 0) (channels * 2) 32 = Inr (?P10 @ replicate 10 0)"
    using writeUInt16LE_at [of "channels * 2" "?P9" 32 12 "0 :: byte"] r by (simp add: length_le16 length_le32)
  have s11: "writeUInt16LE (?P10 @ replicate 10 0) (16) 34 = Inr (?P11 @ replicate 8 0)"
    using writeUInt16LE_at [of "16" "?P10" 34 10 "0 :: byte"] r by (simp add: length_le16 length_le32)
  have s12: "bufferWrite (?P11 @ replicate 8 0) ''data'' 36 = ?P12 @ replicate 4 0"
    using bufferWrite_at [of "?P11" 36 "''data''" 8 "0 :: byte"] by (simp add: length_le16 length_le32)
  have s13: "writeUInt32LE (?P12 @ replicate 4 0) (n) 40 = Inr (?P13 @ replicate 0 0)"
    using writeUInt32LE_at [of "n" "?P12" 40 4 "0 :: byte"] r by (simp add: length_le16 length_le32)
  have P: "?P13 = wavHeader channels (real rate) n"
    by (simp add: wavHeader_def)
  have "pcmToWav pcm channels rate = Inr (?P13 @ pcm)"
    unfolding pcmToWav_def Let_def n_def [symmetric]
    by (simp only: s1 s2 s3 s4 s5 s6 s7 s8 s9 s10 s11 s12 s13 thenE_Inr replicate_0 append_Nil2)
  then have "pcmToWav pcm channels rate = Inr (wavHeader channels (real rate) n @ pcm)"
    by (simp only: P)
  then show ?thesis
    by (simp only: n_def)
qed

lemma pcmToWav_call_site:
  "length pcm < 4294967260 \<Longrightarrow>
   pcmToWav pcm 2 48000 = Inr (wavHeader 2 48000 (length pcm) @ pcm)
   \<and> (\<exists>out. pcmToWav pcm 2 48000 = Inr out \<and> length out = 44 + length pcm)"
  using pcmToWav_layout [of pcm 2 48000] by (simp add: length_wavHeader)

end
